theory Spec2Isabelle
  imports Main
begin

section \<open>JavaScript strings\<close>

text \<open>
  The parser of \<^verbatim>\<open>csvParser.ts\<close> works on JavaScript strings. A string is modelled as a
  \<^typ>\<open>string\<close>, each \<^typ>\<open>char\<close> standing for the code unit of the same number
  (U+0000 to U+00FF). On this alphabet \<^verbatim>\<open>String.prototype.trim\<close> and the regular
  expression class \<^verbatim>\<open>\s\<close> remove exactly the seven characters of \<open>isWhiteSpace\<close>, and
  \<^verbatim>\<open>toLowerCase\<close> moves A-Z and the Latin-1 capitals by 32.
\<close>

abbreviation dquote :: char where "dquote \<equiv> CHR 0x22"
abbreviation comma :: char where "comma \<equiv> CHR 0x2C"
abbreviation LF :: char where "LF \<equiv> CHR 0x0A"

definition isWhiteSpace :: "char \<Rightarrow> bool" where
  "isWhiteSpace c =
     (c = CHR 0x09 \<or> c = CHR 0x0A \<or> c = CHR 0x0B \<or> c = CHR 0x0C \<or> c = CHR 0x0D
      \<or> c = CHR 0x20 \<or> c = CHR 0xA0)"

definition trim :: "string \<Rightarrow> string" where
  "trim s = rev (dropWhile isWhiteSpace (rev (dropWhile isWhiteSpace s)))"

definition toLowerCaseChar :: "char \<Rightarrow> char" where
  "toLowerCaseChar c =
     (let n = (of_char c :: nat)
      in if (65 \<le> n \<and> n \<le> 90) \<or> (192 \<le> n \<and> n \<le> 222 \<and> n \<noteq> 215)
         then char_of (n + 32) else c)"

definition toLowerCase :: "string \<Rightarrow> string" where
  "toLowerCase s = map toLowerCaseChar s"

text \<open>\<^verbatim>\<open>s.substring(a, b)\<close>: both indices are clamped to the length and swapped when
  \<open>a > b\<close>.\<close>

definition substring :: "string \<Rightarrow> nat \<Rightarrow> nat \<Rightarrow> string" where
  "substring s a b = take (max a b - min a b) (drop (min a b) s)"

text \<open>\<^verbatim>\<open>s.replace(/""/g, '"')\<close>: every pair of double quotes, scanned left to right
  without overlap, becomes one.\<close>

fun replaceDoubledQuotes :: "string \<Rightarrow> string" where
  "replaceDoubledQuotes (a # b # cs) =
     (if a = dquote \<and> b = dquote then dquote # replaceDoubledQuotes cs
      else a # replaceDoubledQuotes (b # cs))"
| "replaceDoubledQuotes cs = cs"

subsection \<open>safeParseInt and getValue\<close>

definition isDigit :: "char \<Rightarrow> bool" where
  "isDigit c = (48 \<le> (of_char c :: nat) \<and> (of_char c :: nat) \<le> 57)"

text \<open>
  The numbers of the parser all come from \<^verbatim>\<open>parseInt\<close> or from a literal, so each is a
  double whose value is an integer, or an infinity (\<^verbatim>\<open>NaN\<close> is replaced by the default
  before it is stored). \<open>Finite i\<close> is the double of value \<open>i\<close>; equality of
  \<open>JsNumber\<close>s is \<^verbatim>\<open>===\<close>. The sign of zero is not kept: \<^verbatim>\<open>-0 === 0\<close>,
  \<^verbatim>\<open>-0 <= 0\<close> and \<^verbatim>\<open>String(-0)\<close> is \<^verbatim>\<open>"0"\<close>.
\<close>

datatype JsNumber = Finite int | PosInfinity | NegInfinity

text \<open>\<^verbatim>\<open>x <= 0\<close>.\<close>

fun nonPositive :: "JsNumber \<Rightarrow> bool" where
  "nonPositive (Finite i) = (i \<le> 0)"
| "nonPositive PosInfinity = False"
| "nonPositive NegInfinity = True"

text \<open>The double nearest to the integer \<open>n \<ge> 0\<close>, ties to the even significand; \<open>None\<close>
  when it is an infinity. \<open>shiftCount n\<close> is the number of low bits that do not fit in the
  53 bits of the significand.\<close>

function shiftCount :: "int \<Rightarrow> nat" where
  "shiftCount n = (if n < 2 ^ 53 then 0 else Suc (shiftCount (n div 2)))"
  by pat_completeness auto
termination
  by (relation "measure nat") auto

definition roundToDouble :: "int \<Rightarrow> int option" where
  "roundToDouble n =
     (let e = shiftCount n; q = n div 2 ^ e; r = n mod 2 ^ e;
          m = (if 2 * r > 2 ^ e \<or> (2 * r = 2 ^ e \<and> odd q) then q + 1 else q)
      in if m * 2 ^ e < 2 ^ 1024 then Some (m * 2 ^ e) else None)"

fun digitsValue :: "int \<Rightarrow> string \<Rightarrow> int" where
  "digitsValue acc [] = acc"
| "digitsValue acc (c # cs) = digitsValue (10 * acc + (of_char c - 48)) cs"

text \<open>\<^verbatim>\<open>parseInt(value, 10)\<close>: leading white space is skipped, one sign is read, then
  the longest run of decimal digits; \<open>None\<close> is \<^verbatim>\<open>NaN\<close>. The result is the double
  nearest to the integer the digits write, as the engines compute it (ECMAScript also
  lets an implementation read the digits after the 20th as zeros).\<close>

definition parseInt :: "string \<Rightarrow> JsNumber option" where
  "parseInt v =
     (let s = dropWhile isWhiteSpace v;
          neg = (s \<noteq> [] \<and> hd s = CHR ''-'');
          r = (if s \<noteq> [] \<and> (hd s = CHR ''-'' \<or> hd s = CHR ''+'') then tl s else s);
          ds = takeWhile isDigit r
      in if ds = [] then None
         else (case roundToDouble (digitsValue 0 ds) of
                 None \<Rightarrow> Some (if neg then NegInfinity else PosInfinity)
               | Some d \<Rightarrow> Some (Finite (if neg then - d else d))))"

text \<open>The default values of the source are the literals 0, 1 and 40.\<close>

definition safeParseInt :: "string \<Rightarrow> int \<Rightarrow> JsNumber" where
  "safeParseInt v defaultValue =
     (if trim v = [] then Finite defaultValue
      else case parseInt v of None \<Rightarrow> Finite defaultValue | Some parsed \<Rightarrow> parsed)"

definition getValue :: "string list \<Rightarrow> nat \<Rightarrow> string \<Rightarrow> string" where
  "getValue arr index defaultValue =
     (if index < length arr \<and> arr ! index \<noteq> [] then arr ! index else defaultValue)"

section \<open>Row tokenizer: splitCsvRow\<close>

text \<open>The loop of \<^verbatim>\<open>splitCsvRow\<close> over the characters of the row. Its state is
  \<open>result\<close>, \<open>currentCell\<close> and \<open>inQuotes\<close>; a quote is never copied into the cell,
  a doubled quote inside quotes adds one quote and skips its partner.\<close>

fun splitCsvRowLoop :: "string list \<Rightarrow> string \<Rightarrow> bool \<Rightarrow> string \<Rightarrow> string list" where
  "splitCsvRowLoop result currentCell inQuotes [] = result @ [trim currentCell]"
| "splitCsvRowLoop result currentCell inQuotes [c] =
     (if c = dquote then splitCsvRowLoop result currentCell (\<not> inQuotes) []
      else if c = comma \<and> \<not> inQuotes then splitCsvRowLoop (result @ [trim currentCell]) [] inQuotes []
      else splitCsvRowLoop result (currentCell @ [c]) inQuotes [])"
| "splitCsvRowLoop result currentCell inQuotes (c # d # cs) =
     (if c = dquote then
        (if inQuotes \<and> d = dquote then splitCsvRowLoop result (currentCell @ [dquote]) inQuotes cs
         else splitCsvRowLoop result currentCell (\<not> inQuotes) (d # cs))
      else if c = comma \<and> \<not> inQuotes
        then splitCsvRowLoop (result @ [trim currentCell]) [] inQuotes (d # cs)
      else splitCsvRowLoop result (currentCell @ [c]) inQuotes (d # cs))"

definition unquoteCell :: "string \<Rightarrow> string" where
  "unquoteCell cell =
     (if cell \<noteq> [] \<and> hd cell = dquote \<and> last cell = dquote
      then replaceDoubledQuotes (substring cell 1 (length cell - 1))
      else cell)"

definition splitCsvRow :: "string \<Rightarrow> string list" where
  "splitCsvRow row = map unquoteCell (splitCsvRowLoop [] [] False row)"

section \<open>Record splitter: splitCsvToRecords\<close>

text \<open>The loop of \<^verbatim>\<open>splitCsvToRecords\<close>. \<open>current\<close> is the text from
  \<^verbatim>\<open>currentRecordStart\<close> up to the index of the loop, so that pushing
  \<^verbatim>\<open>csvString.substring(currentRecordStart, i)\<close> pushes \<open>current\<close>. A quote followed by a
  quote is skipped as a pair whatever \<open>inQuotes\<close> is. After the loop the rest is pushed
  when \<^verbatim>\<open>currentRecordStart < csvString.length\<close>, that is when it is not empty.\<close>

fun splitRecordsLoop :: "bool \<Rightarrow> string \<Rightarrow> string \<Rightarrow> string list" where
  "splitRecordsLoop inQuotes current [] = (if current \<noteq> [] then [current] else [])"
| "splitRecordsLoop inQuotes current [c] =
     (if c = dquote then splitRecordsLoop (\<not> inQuotes) (current @ [c]) []
      else if c = LF \<and> \<not> inQuotes then current # splitRecordsLoop inQuotes [] []
      else splitRecordsLoop inQuotes (current @ [c]) [])"
| "splitRecordsLoop inQuotes current (c # d # cs) =
     (if c = dquote then
        (if d = dquote then splitRecordsLoop inQuotes (current @ [c, d]) cs
         else splitRecordsLoop (\<not> inQuotes) (current @ [c]) (d # cs))
      else if c = LF \<and> \<not> inQuotes then current # splitRecordsLoop inQuotes [] (d # cs)
      else splitRecordsLoop inQuotes (current @ [c]) (d # cs))"

text \<open>The filter keeps a record when \<^verbatim>\<open>record.length > 0 && !/^\s*$/.test(record)\<close>.\<close>

definition keepRecord :: "string \<Rightarrow> bool" where
  "keepRecord r = (length r > 0 \<and> \<not> (\<forall>c \<in> set r. isWhiteSpace c))"

definition splitCsvToRecords :: "string \<Rightarrow> string list" where
  "splitCsvToRecords csvString =
     filter keepRecord (map trim (splitRecordsLoop False [] csvString))"

section \<open>Data model\<close>

text \<open>The interfaces of \<^verbatim>\<open>types/quiz.ts\<close>. The option, item and question interfaces
  share the property names \<^verbatim>\<open>text\<close>, \<^verbatim>\<open>htmlFlag\<close>, \<^verbatim>\<open>feedback\<close> and
  \<^verbatim>\<open>feedbackHtmlFlag\<close>; the records prefix them. An optional property is an
  \<^typ>\<open>'a option\<close>, \<open>None\<close> being \<^verbatim>\<open>undefined\<close>.\<close>

record MatchingPair =
  choiceNo :: JsNumber
  choiceText :: string
  matchText :: string

record MCOption =
  percent :: JsNumber
  mcText :: string
  mcHtmlFlag :: bool
  mcFeedback :: "string option"
  mcFeedbackHtmlFlag :: bool

record MSOption =
  weight :: JsNumber
  msText :: string
  msHtmlFlag :: bool
  msFeedback :: "string option"
  msFeedbackHtmlFlag :: bool

text \<open>The property \<^verbatim>\<open>options\<close> holds \<^verbatim>\<open>MCOption\<close>s in a multiple-choice question and
  \<^verbatim>\<open>MSOption\<close>s in a multi-select one.\<close>

datatype AnswerOption = MC MCOption | MS MSOption

record TFOption =
  isTrue :: bool
  credit :: JsNumber
  tfFeedback :: "string option"
  tfHtmlFlag :: bool
  definedLine :: nat

record OrderingItem =
  itemText :: string
  itemHtmlFlag :: bool
  itemFeedback :: "string option"
  itemFeedbackHtmlFlag :: bool

record InputBox =
  rows :: JsNumber
  cols :: JsNumber

text \<open>\<^verbatim>\<open>Partial<Question>\<close>: the object the parser builds, every property optional
  but \<^verbatim>\<open>type\<close>, which is set when the object is created (\<open>questionId\<close> is the
  property \<^verbatim>\<open>id\<close>). The questions of the returned
  quiz are these objects, cast to \<^verbatim>\<open>Question\<close> without a check.\<close>

record PartialQuestion =
  type :: string
  questionId :: "string option"
  title :: "string option"
  questionText :: "string option"
  points :: "JsNumber option"
  difficulty :: "JsNumber option"
  image :: "string option"
  hint :: "string option"
  feedback :: "string option"
  initialText :: "string option"
  answerKey :: "string option"
  inputBox :: "InputBox option"
  bestAnswer :: "string option"
  evaluation :: "string option"
  scoring :: "string option"
  pairs :: "MatchingPair list option"
  options :: "AnswerOption list option"
  trueOption :: "TFOption option"
  falseOption :: "TFOption option"
  items :: "OrderingItem list option"

record Quiz =
  questions :: "PartialQuestion list"

subsection \<open>Diagnostics and exceptions\<close>

datatype JsError = TypeError

datatype SkipReason =
    MissingRequiredFields
  | MatchingIncomplete
  | MultipleChoiceNoOptions
  | TrueFalseLacksOption
  | MultiSelectNoOptions
  | OrderingNoItems
  | ShortAnswerNoBestAnswer

text \<open>One constructor for each call of \<^verbatim>\<open>console.warn\<close>, \<^verbatim>\<open>console.log\<close> and
  \<^verbatim>\<open>console.error\<close>, with the record number and the values the message prints.\<close>

datatype Diag =
    WarnSkipIncomplete nat "string option"
  | WarnUnknownType nat string
  | WarnIgnoredRow nat string string
  | WarnInvalidNumber nat string string "string option"
  | WarnPlaceholderChoice nat "string option" JsNumber
  | LogUnrecognized nat string
  | ErrorProcessing nat JsError
  | WarnSkipLast "string option" SkipReason

text \<open>The local variables of \<^verbatim>\<open>parseQuizCsv\<close> and the console.\<close>

record ParserState =
  stQuestions :: "PartialQuestion list"
  currentQuestion :: "PartialQuestion option"
  currentLineNumber :: nat
  console :: "Diag list"

section \<open>Question assembler\<close>

subsection \<open>Helpers for JavaScript idioms\<close>

text \<open>Truthiness of an optional string: defined and not empty.\<close>

fun truthy :: "string option \<Rightarrow> bool" where
  "truthy None = False"
| "truthy (Some s) = (s \<noteq> [])"

text \<open>\<^verbatim>\<open>x || undefined\<close> on a string.\<close>

definition orUndefined :: "string \<Rightarrow> string option" where
  "orUndefined v = (if v = [] then None else Some v)"

text \<open>\<^verbatim>\<open>xs?.length > 0\<close>.\<close>

fun hasElements :: "'a list option \<Rightarrow> bool" where
  "hasElements None = False"
| "hasElements (Some xs) = (length xs > 0)"

text \<open>\<^verbatim>\<open>if (xs) xs[xs.length - 1].feedback = value\<close>: nothing when \<open>xs\<close> is undefined,
  a \<^verbatim>\<open>TypeError\<close> when it is empty, since \<^verbatim>\<open>xs[-1]\<close> is undefined.\<close>

fun assignLast :: "('a \<Rightarrow> 'a) \<Rightarrow> 'a list option \<Rightarrow> JsError + 'a list option" where
  "assignLast f None = Inr None"
| "assignLast f (Some xs) =
     (if xs = [] then Inl TypeError else Inr (Some (butlast xs @ [f (last xs)])))"

fun setOptionFeedback :: "string \<Rightarrow> AnswerOption \<Rightarrow> AnswerOption" where
  "setOptionFeedback v (MC opt) = MC (opt\<lparr>mcFeedback := Some v\<rparr>)"
| "setOptionFeedback v (MS opt) = MS (opt\<lparr>msFeedback := Some v\<rparr>)"

text \<open>\<^verbatim>\<open>pair = pairs.find(p); if (pair) pair.x = v\<close>: the first pair that satisfies
  \<open>p\<close> is changed in place.\<close>

fun updateFirst :: "('a \<Rightarrow> bool) \<Rightarrow> ('a \<Rightarrow> 'a) \<Rightarrow> 'a list \<Rightarrow> 'a list" where
  "updateFirst p f [] = []"
| "updateFirst p f (x # xs) = (if p x then f x # xs else x # updateFirst p f xs)"

text \<open>
  \<^verbatim>\<open>`${choiceNo}`\<close> is \<^verbatim>\<open>Number.prototype.toString\<close>. Below \<open>2^53\<close> it writes the digits
  of the integer. From there on it writes the shortest digits \<open>s\<close> (\<open>k\<close> of them, at
  most 17) such that \<open>s * 10^(n - k)\<close> rounds to the number, the closest such \<open>s\<close> when
  there are two, padded with zeros when \<open>n \<le> 21\<close> and in exponent notation otherwise.
\<close>

definition digitChars :: string where
  "digitChars = ''0123456789''"

function showDigits :: "int \<Rightarrow> string" where
  "showDigits n =
     (if n < 10 then [digitChars ! nat n]
      else showDigits (n div 10) @ [digitChars ! nat (n mod 10)])"
  by pat_completeness auto
termination
  by (relation "measure nat") auto

definition closest :: "int \<Rightarrow> int \<Rightarrow> int list \<Rightarrow> int list" where
  "closest x p ss =
     (case ss of
        [a, b] \<Rightarrow>
          (if x - a * p < b * p - x \<or> (x - a * p = b * p - x \<and> even a) then [a] else [b])
      | _ \<Rightarrow> ss)"

definition digitCandidates :: "int \<Rightarrow> nat \<Rightarrow> nat \<Rightarrow> (int \<times> nat \<times> nat) list" where
  "digitCandidates x k n =
     (if k \<le> n then
        map (\<lambda>s. (s, k, n))
          (closest x (10 ^ (n - k))
             (filter (\<lambda>s. 10 ^ (k - 1) \<le> s \<and> s < 10 ^ k
                          \<and> roundToDouble (s * 10 ^ (n - k)) = Some x)
                [x div 10 ^ (n - k), x div 10 ^ (n - k) + 1]))
      else [])"

definition shortestDigits :: "int \<Rightarrow> int \<times> nat \<times> nat" where
  "shortestDigits x =
     (let d = length (showDigits x)
      in case concat (map (\<lambda>k. digitCandidates x k d @ digitCandidates x k (d + 1)) [1..<18]) of
           [] \<Rightarrow> (x, d, d)
         | c # _ \<Rightarrow> c)"

definition positiveToString :: "int \<Rightarrow> string" where
  "positiveToString x =
     (if x < 2 ^ 53 then showDigits x
      else (case shortestDigits x of
              (s, k, n) \<Rightarrow>
                if n \<le> 21 then showDigits s @ replicate (n - k) (CHR ''0'')
                else if k = 1 then showDigits s @ ''e+'' @ showDigits (int n - 1)
                else hd (showDigits s) # CHR ''.'' # tl (showDigits s)
                       @ ''e+'' @ showDigits (int n - 1)))"

fun numberToString :: "JsNumber \<Rightarrow> string" where
  "numberToString (Finite i) =
     (if i < 0 then CHR ''-'' # positiveToString (- i) else positiveToString i)"
| "numberToString PosInfinity = ''Infinity''"
| "numberToString NegInfinity = ''-Infinity''"

definition placeholderChoiceText :: "JsNumber \<Rightarrow> string" where
  "placeholderChoiceText n = ''[Choice '' @ numberToString n @ '' Placeholder]''"

definition knownTypes :: "string list" where
  "knownTypes = [''WR'', ''SA'', ''M'', ''MC'', ''TF'', ''MS'', ''O'']"

definition emptyQuestion :: PartialQuestion where
  "emptyQuestion =
     \<lparr>type = [], questionId = None, title = None, questionText = None, points = None,
      difficulty = None, image = None, hint = None, feedback = None, initialText = None,
      answerKey = None, inputBox = None, bestAnswer = None, evaluation = None,
      scoring = None, pairs = None, options = None, trueOption = None, falseOption = None,
      items = None\<rparr>"

text \<open>\<^verbatim>\<open>{ type: questionTypeCode, points: 1 }\<close>.\<close>

definition newQuestion :: "string \<Rightarrow> PartialQuestion" where
  "newQuestion questionTypeCode = emptyQuestion\<lparr>type := questionTypeCode, points := Some (Finite 1)\<rparr>"

text \<open>The check of both finalizations:
  \<^verbatim>\<open>type && title && questionText && points !== undefined\<close>.\<close>

definition requiredFields :: "PartialQuestion \<Rightarrow> bool" where
  "requiredFields q =
     (type q \<noteq> [] \<and> truthy (title q) \<and> truthy (questionText q) \<and> points q \<noteq> None)"

subsection \<open>The cases of the switch\<close>

text \<open>Each case returns the changed question and what it printed, or the exception it
  threw. \<open>n\<close> is \<^verbatim>\<open>currentLineNumber\<close>, \<open>v\<close> to \<open>v5\<close> are \<^verbatim>\<open>value\<close> to
  \<^verbatim>\<open>value5\<close>.\<close>

type_synonym RowResult = "JsError + PartialQuestion \<times> Diag list"

definition feedbackCase :: "string \<Rightarrow> PartialQuestion \<Rightarrow> RowResult" where
  "feedbackCase v q =
     (if type q = ''MC'' \<and> hasElements (options q) then
        (case assignLast (setOptionFeedback v) (options q) of
           Inl e \<Rightarrow> Inl e | Inr os \<Rightarrow> Inr (q\<lparr>options := os\<rparr>, []))
      else if type q = ''MS'' \<and> hasElements (options q) then
        (case assignLast (setOptionFeedback v) (options q) of
           Inl e \<Rightarrow> Inl e | Inr os \<Rightarrow> Inr (q\<lparr>options := os\<rparr>, []))
      else if type q = ''TF'' then
        (case falseOption q of
           Some f \<Rightarrow>
             (case trueOption q of
                None \<Rightarrow> Inr (q\<lparr>falseOption := Some (f\<lparr>tfFeedback := Some v\<rparr>)\<rparr>, [])
              | Some t \<Rightarrow>
                  if definedLine f \<noteq> 0 \<and> definedLine t \<noteq> 0 \<and> definedLine f > definedLine t
                  then Inr (q\<lparr>falseOption := Some (f\<lparr>tfFeedback := Some v\<rparr>)\<rparr>, [])
                  else Inr (q\<lparr>trueOption := Some (t\<lparr>tfFeedback := Some v\<rparr>)\<rparr>, []))
         | None \<Rightarrow>
             (case trueOption q of
                Some t \<Rightarrow> Inr (q\<lparr>trueOption := Some (t\<lparr>tfFeedback := Some v\<rparr>)\<rparr>, [])
              | None \<Rightarrow> Inr (q\<lparr>feedback := Some v\<rparr>, [])))
      else if type q = ''O'' \<and> hasElements (items q) then
        (case assignLast (\<lambda>it. it\<lparr>itemFeedback := Some v\<rparr>) (items q) of
           Inl e \<Rightarrow> Inl e | Inr its \<Rightarrow> Inr (q\<lparr>items := its\<rparr>, []))
      else Inr (q\<lparr>feedback := Some v\<rparr>, []))"

definition evaluationOf :: "string \<Rightarrow> string" where
  "evaluationOf flag =
     (if flag = ''regexp'' then ''regexp''
      else if flag = ''sensitive'' then ''sensitive'' else ''insensitive'')"

definition answerCase :: "nat \<Rightarrow> string \<Rightarrow> string \<Rightarrow> PartialQuestion \<Rightarrow> RowResult" where
  "answerCase n v2 v3 q =
     (if type q = ''SA''
      then Inr (q\<lparr>bestAnswer := Some v2, evaluation := Some (evaluationOf (toLowerCase v3))\<rparr>, [])
      else Inr (q, [WarnIgnoredRow n ''Answer'' (type q)]))"

definition scoringCase :: "nat \<Rightarrow> string \<Rightarrow> PartialQuestion \<Rightarrow> RowResult" where
  "scoringCase n v q =
     (if type q = ''M'' then Inr (q\<lparr>scoring := Some v\<rparr>, [])
      else if type q = ''MS'' then Inr (q\<lparr>scoring := Some v\<rparr>, [])
      else if type q = ''O'' then Inr (q\<lparr>scoring := Some v\<rparr>, [])
      else Inr (q, [WarnIgnoredRow n ''Scoring'' (type q)]))"

text \<open>\<^verbatim>\<open>if (!mq.pairs) mq.pairs = []\<close> runs before the choice number is checked, so the
  \<^verbatim>\<open>continue\<close> of an invalid number leaves \<^verbatim>\<open>pairs\<close> defined.\<close>

definition pairsOrEmpty :: "PartialQuestion \<Rightarrow> MatchingPair list" where
  "pairsOrEmpty q = (case pairs q of None \<Rightarrow> [] | Some ps \<Rightarrow> ps)"

definition choiceCase :: "nat \<Rightarrow> string \<Rightarrow> string \<Rightarrow> PartialQuestion \<Rightarrow> RowResult" where
  "choiceCase n v v2 q =
     (if type q = ''M'' then
        (if nonPositive (safeParseInt v 0)
         then Inr (q\<lparr>pairs := Some (pairsOrEmpty q)\<rparr>,
                   [WarnInvalidNumber n ''Choice'' v (title q)])
         else (case find (\<lambda>p. choiceNo p = safeParseInt v 0) (pairsOrEmpty q) of
                 Some pair \<Rightarrow>
                   Inr (q\<lparr>pairs := Some (updateFirst (\<lambda>p. choiceNo p = safeParseInt v 0)
                                           (\<lambda>p. p\<lparr>choiceText := v2\<rparr>) (pairsOrEmpty q))\<rparr>, [])
               | None \<Rightarrow>
                   Inr (q\<lparr>pairs := Some (pairsOrEmpty q @
                            [\<lparr>choiceNo = safeParseInt v 0, choiceText = v2, matchText = []\<rparr>])\<rparr>,
                        [])))
      else Inr (q, [WarnIgnoredRow n ''Choice'' (type q)]))"

definition matchCase :: "nat \<Rightarrow> string \<Rightarrow> string \<Rightarrow> PartialQuestion \<Rightarrow> RowResult" where
  "matchCase n v v2 q =
     (if type q = ''M'' then
        (if nonPositive (safeParseInt v 0)
         then Inr (q\<lparr>pairs := Some (pairsOrEmpty q)\<rparr>,
                   [WarnInvalidNumber n ''Match'' v (title q)])
         else (case find (\<lambda>p. choiceNo p = safeParseInt v 0) (pairsOrEmpty q) of
                 Some pair \<Rightarrow>
                   Inr (q\<lparr>pairs := Some (updateFirst (\<lambda>p. choiceNo p = safeParseInt v 0)
                                           (\<lambda>p. p\<lparr>matchText := v2\<rparr>) (pairsOrEmpty q))\<rparr>, [])
               | None \<Rightarrow>
                   Inr (q\<lparr>pairs := Some (pairsOrEmpty q @
                            [\<lparr>choiceNo = safeParseInt v 0,
                              choiceText = placeholderChoiceText (safeParseInt v 0),
                              matchText = v2\<rparr>])\<rparr>,
                        [WarnPlaceholderChoice n (title q) (safeParseInt v 0)])))
      else Inr (q, [WarnIgnoredRow n ''Match'' (type q)]))"

definition optionsOrEmpty :: "PartialQuestion \<Rightarrow> AnswerOption list" where
  "optionsOrEmpty q = (case options q of None \<Rightarrow> [] | Some os \<Rightarrow> os)"

definition optionCase ::
  "nat \<Rightarrow> string \<Rightarrow> string \<Rightarrow> string \<Rightarrow> string \<Rightarrow> string \<Rightarrow> PartialQuestion \<Rightarrow> RowResult" where
  "optionCase n v v2 v3 v4 v5 q =
     (if type q = ''MC'' then
        Inr (q\<lparr>options := Some (optionsOrEmpty q @
               [MC \<lparr>percent = safeParseInt v 0, mcText = v2,
                    mcHtmlFlag = (toLowerCase v3 = ''html''),
                    mcFeedback = orUndefined v4,
                    mcFeedbackHtmlFlag = (toLowerCase v5 = ''html'')\<rparr>])\<rparr>, [])
      else if type q = ''MS'' then
        Inr (q\<lparr>options := Some (optionsOrEmpty q @
               [MS \<lparr>weight = safeParseInt v 0, msText = v2,
                    msHtmlFlag = (toLowerCase v3 = ''html''),
                    msFeedback = orUndefined v4,
                    msFeedbackHtmlFlag = (toLowerCase v5 = ''html'')\<rparr>])\<rparr>, [])
      else Inr (q, [WarnIgnoredRow n ''Option'' (type q)]))"

definition trueCase :: "nat \<Rightarrow> string \<Rightarrow> string \<Rightarrow> string \<Rightarrow> PartialQuestion \<Rightarrow> RowResult" where
  "trueCase n v v2 v3 q =
     (if type q = ''TF'' then
        Inr (q\<lparr>trueOption := Some \<lparr>isTrue = True, credit = safeParseInt v 0,
                                    tfFeedback = orUndefined v2,
                                    tfHtmlFlag = (toLowerCase v3 = ''html''),
                                    definedLine = n\<rparr>\<rparr>, [])
      else Inr (q, [WarnIgnoredRow n ''True'' (type q)]))"

definition falseCase :: "nat \<Rightarrow> string \<Rightarrow> string \<Rightarrow> string \<Rightarrow> PartialQuestion \<Rightarrow> RowResult" where
  "falseCase n v v2 v3 q =
     (if type q = ''TF'' then
        Inr (q\<lparr>falseOption := Some \<lparr>isTrue = False, credit = safeParseInt v 0,
                                     tfFeedback = orUndefined v2,
                                     tfHtmlFlag = (toLowerCase v3 = ''html''),
                                     definedLine = n\<rparr>\<rparr>, [])
      else Inr (q, [WarnIgnoredRow n ''False'' (type q)]))"

definition itemsOrEmpty :: "PartialQuestion \<Rightarrow> OrderingItem list" where
  "itemsOrEmpty q = (case items q of None \<Rightarrow> [] | Some its \<Rightarrow> its)"

definition itemCase ::
  "nat \<Rightarrow> string \<Rightarrow> string \<Rightarrow> string \<Rightarrow> string \<Rightarrow> PartialQuestion \<Rightarrow> RowResult" where
  "itemCase n v v2 v3 v5 q =
     (if type q = ''O'' then
        Inr (q\<lparr>items := Some (itemsOrEmpty q @
               [\<lparr>itemText = v, itemHtmlFlag = (toLowerCase v2 = ''html''),
                 itemFeedback = orUndefined v3,
                 itemFeedbackHtmlFlag = (toLowerCase v5 = ''html'')\<rparr>])\<rparr>, [])
      else Inr (q, [WarnIgnoredRow n ''Item'' (type q)]))"

subsection \<open>One record\<close>

text \<open>The \<^verbatim>\<open>switch\<close> on the lower-cased first cell. The default case prints when the
  key is not blank.\<close>

definition switchCase ::
  "nat \<Rightarrow> string \<Rightarrow> string \<Rightarrow> string \<Rightarrow> string \<Rightarrow> string \<Rightarrow> string \<Rightarrow> PartialQuestion
     \<Rightarrow> RowResult" where
  "switchCase n typeOrKey v v2 v3 v4 v5 q =
     (if typeOrKey = ''id'' then Inr (q\<lparr>questionId := Some v\<rparr>, [])
      else if typeOrKey = ''title'' then Inr (q\<lparr>title := Some v\<rparr>, [])
      else if typeOrKey = ''questiontext'' then Inr (q\<lparr>questionText := Some v\<rparr>, [])
      else if typeOrKey = ''points'' then Inr (q\<lparr>points := Some (safeParseInt v 1)\<rparr>, [])
      else if typeOrKey = ''difficulty'' then Inr (q\<lparr>difficulty := Some (safeParseInt v 0)\<rparr>, [])
      else if typeOrKey = ''image'' then Inr (q\<lparr>image := Some v\<rparr>, [])
      else if typeOrKey = ''hint'' then Inr (q\<lparr>hint := Some v\<rparr>, [])
      else if typeOrKey = ''feedback'' then feedbackCase v q
      else if typeOrKey = ''initialtext'' then Inr (q\<lparr>initialText := Some v\<rparr>, [])
      else if typeOrKey = ''answerkey'' then Inr (q\<lparr>answerKey := Some v\<rparr>, [])
      else if typeOrKey = ''inputbox''
        then Inr (q\<lparr>inputBox := Some \<lparr>rows = safeParseInt v 1, cols = safeParseInt v2 40\<rparr>\<rparr>, [])
      else if typeOrKey = ''answer'' then answerCase n v2 v3 q
      else if typeOrKey = ''scoring'' then scoringCase n v q
      else if typeOrKey = ''choice'' then choiceCase n v v2 q
      else if typeOrKey = ''match'' then matchCase n v v2 q
      else if typeOrKey = ''option'' then optionCase n v v2 v3 v4 v5 q
      else if typeOrKey = ''true'' then trueCase n v v2 v3 q
      else if typeOrKey = ''false'' then falseCase n v v2 v3 q
      else if typeOrKey = ''item'' then itemCase n v v2 v3 v5 q
      else if typeOrKey \<noteq> [] \<and> trim typeOrKey \<noteq> [] then Inr (q, [LogUnrecognized n typeOrKey])
      else Inr (q, []))"

text \<open>The \<^verbatim>\<open>newquestion\<close> branch: the question in progress is pushed when
  \<open>requiredFields\<close> holds, then a question of the given type is started, or none when
  the type is unknown.\<close>

definition finishPrevious :: "ParserState \<Rightarrow> nat \<Rightarrow> PartialQuestion list \<times> Diag list" where
  "finishPrevious st n =
     (case currentQuestion st of
        None \<Rightarrow> (stQuestions st, [])
      | Some q \<Rightarrow>
          if requiredFields q then (stQuestions st @ [q], [])
          else (stQuestions st, [WarnSkipIncomplete n (title q)]))"

definition newQuestionCase :: "ParserState \<Rightarrow> nat \<Rightarrow> string \<Rightarrow> ParserState" where
  "newQuestionCase st n questionTypeCode =
     (if questionTypeCode \<notin> set knownTypes
      then \<lparr>stQuestions = fst (finishPrevious st n), currentQuestion = None,
            currentLineNumber = n,
            console = console st @ snd (finishPrevious st n) @ [WarnUnknownType n questionTypeCode]\<rparr>
      else \<lparr>stQuestions = fst (finishPrevious st n),
            currentQuestion = Some (newQuestion questionTypeCode),
            currentLineNumber = n,
            console = console st @ snd (finishPrevious st n)\<rparr>)"

text \<open>\<^verbatim>\<open>try { switch ... } catch (e) { console.error(...) }\<close>.\<close>

definition tryCatch :: "ParserState \<Rightarrow> nat \<Rightarrow> RowResult \<Rightarrow> ParserState" where
  "tryCatch st n r =
     (case r of
        Inl e \<Rightarrow> st\<lparr>currentLineNumber := n, console := console st @ [ErrorProcessing n e]\<rparr>
      | Inr (q, msgs) \<Rightarrow>
          st\<lparr>currentQuestion := Some q, currentLineNumber := n, console := console st @ msgs\<rparr>)"

text \<open>The body of the loop for one tokenized record.\<close>

definition processRow :: "ParserState \<Rightarrow> string list \<Rightarrow> ParserState" where
  "processRow st row =
     (if toLowerCase (getValue row 0 []) = ''newquestion''
      then newQuestionCase st (currentLineNumber st + 1) (getValue row 1 [])
      else (case currentQuestion st of
              None \<Rightarrow> st\<lparr>currentLineNumber := currentLineNumber st + 1\<rparr>
            | Some q \<Rightarrow>
                tryCatch st (currentLineNumber st + 1)
                  (switchCase (currentLineNumber st + 1) (toLowerCase (getValue row 0 []))
                     (getValue row 1 []) (getValue row 2 []) (getValue row 3 [])
                     (getValue row 4 []) (getValue row 5 []) q)))"

definition processRecord :: "ParserState \<Rightarrow> string \<Rightarrow> ParserState" where
  "processRecord st rawRecord = processRow st (splitCsvRow rawRecord)"

subsection \<open>End of input\<close>

definition pairIncomplete :: "MatchingPair \<Rightarrow> bool" where
  "pairIncomplete p = (choiceText p = [] \<or> matchText p = [])"

definition skipReason :: "PartialQuestion \<Rightarrow> SkipReason option" where
  "skipReason q =
     (if \<not> requiredFields q then Some MissingRequiredFields
      else if type q = ''M'' \<and> (pairsOrEmpty q = [] \<or> list_ex pairIncomplete (pairsOrEmpty q))
        then Some MatchingIncomplete
      else if type q = ''MC'' \<and> optionsOrEmpty q = [] then Some MultipleChoiceNoOptions
      else if type q = ''TF'' \<and> (trueOption q = None \<or> falseOption q = None)
        then Some TrueFalseLacksOption
      else if type q = ''MS'' \<and> optionsOrEmpty q = [] then Some MultiSelectNoOptions
      else if type q = ''O'' \<and> itemsOrEmpty q = [] then Some OrderingNoItems
      else if type q = ''SA'' \<and> bestAnswer q = None then Some ShortAnswerNoBestAnswer
      else None)"

definition finishLast :: "ParserState \<Rightarrow> ParserState" where
  "finishLast st =
     (case currentQuestion st of
        None \<Rightarrow> st
      | Some q \<Rightarrow>
          (case skipReason q of
             None \<Rightarrow> st\<lparr>stQuestions := stQuestions st @ [q]\<rparr>
           | Some reason \<Rightarrow> st\<lparr>console := console st @ [WarnSkipLast (title q) reason]\<rparr>))"

subsection \<open>parseQuizCsv\<close>

definition initialState :: ParserState where
  "initialState = \<lparr>stQuestions = [], currentQuestion = None, currentLineNumber = 0, console = []\<rparr>"

text \<open>The loop over tokenized records, and over raw records.\<close>

definition assemble :: "ParserState \<Rightarrow> string list list \<Rightarrow> ParserState" where
  "assemble st rws = foldl processRow st rws"

definition runParser :: "string \<Rightarrow> ParserState" where
  "runParser csvContent =
     finishLast (foldl processRecord initialState (splitCsvToRecords csvContent))"

definition parseQuizCsv :: "string \<Rightarrow> Quiz" where
  "parseQuizCsv csvContent = \<lparr>questions = stQuestions (runParser csvContent)\<rparr>"

section \<open>Predicates used in the properties\<close>

text \<open>What every pushed question satisfies, and what holds of the question in progress.\<close>

definition wellFormedQuestion :: "PartialQuestion \<Rightarrow> bool" where
  "wellFormedQuestion q =
     (truthy (title q) \<and> truthy (questionText q) \<and> type q \<in> set knownTypes \<and> points q \<noteq> None)"

definition stateInvariant :: "ParserState \<Rightarrow> bool" where
  "stateInvariant st =
     ((\<forall>q \<in> set (stQuestions st). wellFormedQuestion q) \<and>
      (\<forall>q. currentQuestion st = Some q \<longrightarrow> type q \<in> set knownTypes \<and> points q \<noteq> None))"

text \<open>The console holds no message of the \<^verbatim>\<open>catch\<close> branch.\<close>

fun isErrorProcessing :: "Diag \<Rightarrow> bool" where
  "isErrorProcessing (ErrorProcessing n e) = True"
| "isErrorProcessing d = False"

definition noException :: "ParserState \<Rightarrow> bool" where
  "noException st = (\<forall>d \<in> set (console st). \<not> isErrorProcessing d)"

text \<open>The test of the \<^verbatim>\<open>newquestion\<close> branch, on a tokenized record.\<close>

definition isNewQuestionRow :: "string list \<Rightarrow> bool" where
  "isNewQuestionRow row = (toLowerCase (getValue row 0 []) = ''newquestion'')"

text \<open>The \<open>definedLine\<close> of a true/false option is the number of a record already read,
  counted from 1, and the two options of a question were defined by different records.\<close>

definition tfLinesOk :: "nat \<Rightarrow> PartialQuestion \<Rightarrow> bool" where
  "tfLinesOk m q =
     ((\<forall>t. trueOption q = Some t \<longrightarrow> 0 < definedLine t \<and> definedLine t \<le> m) \<and>
      (\<forall>f. falseOption q = Some f \<longrightarrow> 0 < definedLine f \<and> definedLine f \<le> m) \<and>
      (\<forall>t f. trueOption q = Some t \<and> falseOption q = Some f \<longrightarrow> definedLine t \<noteq> definedLine f))"

definition tfLinesInvariant :: "ParserState \<Rightarrow> bool" where
  "tfLinesInvariant st = (\<forall>q. currentQuestion st = Some q \<longrightarrow> tfLinesOk (currentLineNumber st) q)"




text \<open>The kind, the choice number and the text of a \<^verbatim>\<open>choice\<close> or \<^verbatim>\<open>match\<close> record, and
  what such a record does to the pairs of a matching question: \<open>pairRowStep\<close> puts the
  \<^verbatim>\<open>choice\<close> and the \<^verbatim>\<open>match\<close> case of the switch side by side.\<close>

definition isPairRow :: "string list \<Rightarrow> bool" where
  "isPairRow row =
     (toLowerCase (getValue row 0 []) = ''choice'' \<or> toLowerCase (getValue row 0 []) = ''match'')"

definition pairRowOf :: "string list \<Rightarrow> string \<times> JsNumber \<times> string" where
  "pairRowOf row =
     (toLowerCase (getValue row 0 []), safeParseInt (getValue row 1 []) 0, getValue row 2 [])"

fun pairRowStep :: "MatchingPair list \<Rightarrow> string \<times> JsNumber \<times> string \<Rightarrow> MatchingPair list" where
  "pairRowStep ps (k, c, t) =
     (if nonPositive c then ps
      else if find (\<lambda>p. choiceNo p = c) ps \<noteq> None
        then updateFirst (\<lambda>p. choiceNo p = c)
               (\<lambda>p. if k = ''choice'' then p\<lparr>choiceText := t\<rparr> else p\<lparr>matchText := t\<rparr>) ps
      else ps @ [\<lparr>choiceNo = c,
                  choiceText = (if k = ''choice'' then t else placeholderChoiceText c),
                  matchText = (if k = ''choice'' then [] else t)\<rparr>])"

text \<open>The splitting of the superseded parser, \<^verbatim>\<open>csvContent.split('\n')\<close> followed by
  \<^verbatim>\<open>.map(row => row.trim()).filter(row => row.length > 0)\<close>. \<open>splitOnLineFeed\<close> is
  \<^verbatim>\<open>split\<close>: one more piece than there are line feeds.\<close>

fun splitOnLineFeed :: "string \<Rightarrow> string \<Rightarrow> string list" where
  "splitOnLineFeed current [] = [current]"
| "splitOnLineFeed current (c # cs) =
     (if c = LF then current # splitOnLineFeed [] cs else splitOnLineFeed (current @ [c]) cs)"

definition plainLineSplit :: "string \<Rightarrow> string list" where
  "plainLineSplit csvContent =
     filter (\<lambda>row. length row > 0) (map trim (splitOnLineFeed [] csvContent))"

text \<open>No line feed lies inside a quoted span: scanning from the left with the quote
  state toggled by each double quote, every line feed is met outside quotes. A doubled
  quote toggles twice, so it leaves the state as the escape rule does.\<close>

fun noLineFeedInQuotes :: "bool \<Rightarrow> string \<Rightarrow> bool" where
  "noLineFeedInQuotes inQuotes [] = True"
| "noLineFeedInQuotes inQuotes (c # cs) =
     (if c = dquote then noLineFeedInQuotes (\<not> inQuotes) cs
      else if c = LF then \<not> inQuotes \<and> noLineFeedInQuotes inQuotes cs
      else noLineFeedInQuotes inQuotes cs)"

text \<open>The loop of the splitter does not push an empty last record.\<close>

definition dropEmptyLast :: "string list \<Rightarrow> string list" where
  "dropEmptyLast rs = (if rs \<noteq> [] \<and> last rs = [] then butlast rs else rs)"



text \<open>A question with the \<open>definedLine\<close> of its true/false options moved by \<open>k\<close>, and two
  parser states that differ by such a move in the questions after \<open>common\<close>.\<close>

definition shiftLine :: "nat \<Rightarrow> TFOption \<Rightarrow> TFOption" where
  "shiftLine k t = t\<lparr>definedLine := definedLine t + k\<rparr>"

definition shiftLines :: "nat \<Rightarrow> PartialQuestion \<Rightarrow> PartialQuestion" where
  "shiftLines k q =
     q\<lparr>trueOption := map_option (shiftLine k) (trueOption q),
       falseOption := map_option (shiftLine k) (falseOption q)\<rparr>"

definition shiftedFrom ::
  "PartialQuestion list \<Rightarrow> nat \<Rightarrow> ParserState \<Rightarrow> ParserState \<Rightarrow> bool" where
  "shiftedFrom common k s t =
     ((\<exists>new. stQuestions s = common @ new \<and> stQuestions t = common @ map (shiftLines k) new)
      \<and> currentQuestion t = map_option (shiftLines k) (currentQuestion s)
      \<and> currentLineNumber t = currentLineNumber s + k
      \<and> tfLinesInvariant s)"

definition shiftsTo :: "nat \<Rightarrow> RowResult \<Rightarrow> RowResult \<Rightarrow> bool" where
  "shiftsTo k r r' =
     (\<exists>q' msgs msgs'. r = Inr (q', msgs) \<and> r' = Inr (shiftLines k q', msgs'))"

section \<open>No case of the switch throws\<close>

lemma feedbackCase_Inr: "\<exists>q' msgs. feedbackCase v q = Inr (q', msgs)"
proof (cases "options q")
  case None
  then show ?thesis
    by (cases "items q") (auto simp: feedbackCase_def split: option.splits)
next
  case (Some os)
  then show ?thesis
    by (cases "items q") (auto simp: feedbackCase_def split: option.splits)
qed

lemma switchCase_Inr: "\<exists>q' msgs. switchCase n k v v2 v3 v4 v5 q = Inr (q', msgs)"
  using feedbackCase_Inr [of v q]
  by (simp add: switchCase_def answerCase_def scoringCase_def choiceCase_def matchCase_def
      optionCase_def trueCase_def falseCase_def itemCase_def split: option.splits)

lemma feedbackCase_keeps:
  "feedbackCase v q = Inr (q', msgs) \<Longrightarrow> type q' = type q \<and> points q' = points q \<and> title q' = title q \<and> questionText q' = questionText q"
  by (auto simp: feedbackCase_def split: if_splits option.splits sum.splits)

lemma switchCase_keeps:
  "switchCase n k v v2 v3 v4 v5 q = Inr (q', msgs) \<Longrightarrow>
     type q' = type q \<and> (points q \<noteq> None \<longrightarrow> points q' \<noteq> None)"
  using feedbackCase_keeps [of v q q' msgs]
  by (auto simp: switchCase_def answerCase_def scoringCase_def choiceCase_def matchCase_def
      optionCase_def trueCase_def falseCase_def itemCase_def split: if_splits option.splits)

section \<open>Required fields of the returned questions\<close>

lemma stateInvariant_initial: "stateInvariant initialState"
  by (simp add: stateInvariant_def initialState_def)

lemma finishPrevious_wellFormed:
  assumes "stateInvariant st"
  shows "\<forall>q \<in> set (fst (finishPrevious st n)). wellFormedQuestion q"
  using assms
  by (auto simp: stateInvariant_def finishPrevious_def wellFormedQuestion_def requiredFields_def
      split: option.splits)

lemma stateInvariant_newQuestionCase:
  assumes "stateInvariant st"
  shows "stateInvariant (newQuestionCase st n code)"
  using finishPrevious_wellFormed [OF assms, of n]
  by (simp add: stateInvariant_def newQuestionCase_def newQuestion_def emptyQuestion_def)

lemma stateInvariant_tryCatch:
  assumes "stateInvariant st" and "currentQuestion st = Some q"
  shows "stateInvariant (tryCatch st n (switchCase n k v v2 v3 v4 v5 q))"
proof -
  obtain q' msgs where r: "switchCase n k v v2 v3 v4 v5 q = Inr (q', msgs)"
    using switchCase_Inr by blast
  from switchCase_keeps [OF r] assms show ?thesis
    by (simp add: r tryCatch_def stateInvariant_def)
qed

lemma stateInvariant_processRow:
  assumes "stateInvariant st"
  shows "stateInvariant (processRow st row)"
proof (cases "toLowerCase (getValue row 0 []) = ''newquestion''")
  case True
  then show ?thesis
    by (simp add: processRow_def stateInvariant_newQuestionCase [OF assms])
next
  case False
  show ?thesis
  proof (cases "currentQuestion st")
    case None
    with False assms show ?thesis
      by (simp add: processRow_def stateInvariant_def)
  next
    case (Some q)
    with False stateInvariant_tryCatch [OF assms Some] show ?thesis
      by (simp add: processRow_def)
  qed
qed

lemma stateInvariant_foldl_processRecord:
  "stateInvariant st \<Longrightarrow> stateInvariant (foldl processRecord st recs)"
  by (induction recs arbitrary: st) (simp_all add: processRecord_def stateInvariant_processRow)

lemma finishLast_wellFormed:
  assumes "stateInvariant st"
  shows "\<forall>q \<in> set (stQuestions (finishLast st)). wellFormedQuestion q"
  using assms
  by (auto simp: stateInvariant_def finishLast_def wellFormedQuestion_def skipReason_def
      requiredFields_def split: option.splits if_splits)

lemma truthy_iff: "truthy x \<longleftrightarrow> (\<exists>s. x = Some s \<and> s \<noteq> [])"
  by (cases x) auto

text \<open>
  Claim C10. Every question of the quiz that \<open>parseQuizCsv\<close> returns, for any input, has a
  title that is a non-empty string, a question text that is a non-empty string, a type
  among the seven known codes and a defined number of points. Both finalizations test
  the truthiness of title and question text, so a question whose title or body is the
  empty string fails \<open>requiredFields\<close> and is never pushed.
\<close>

theorem returned_questions_have_required_fields:
  assumes "q \<in> set (questions (parseQuizCsv csvContent))"
  shows "(\<exists>t. title q = Some t \<and> t \<noteq> []) \<and> (\<exists>b. questionText q = Some b \<and> b \<noteq> [])
         \<and> type q \<in> {''WR'', ''SA'', ''M'', ''MC'', ''TF'', ''MS'', ''O''}
         \<and> (\<exists>p. points q = Some p)
         \<and> \<not> requiredFields (q\<lparr>title := Some []\<rparr>)
         \<and> \<not> requiredFields (q\<lparr>questionText := Some []\<rparr>)"
proof -
  have "stateInvariant (foldl processRecord initialState (splitCsvToRecords csvContent))"
    by (rule stateInvariant_foldl_processRecord [OF stateInvariant_initial])
  from finishLast_wellFormed [OF this] assms have "wellFormedQuestion q"
    by (simp add: parseQuizCsv_def runParser_def)
  then show ?thesis
    by (simp add: wellFormedQuestion_def truthy_iff knownTypes_def requiredFields_def)
qed

text \<open>A written-response question with its three rows is returned and has the four
  fields; the same block with an empty title cell is dropped.\<close>

theorem returned_questions_have_required_fields_witness:
  "newQuestion ''WR'' \<lparr>title := Some ''T'', questionText := Some ''Body''\<rparr>
     \<in> set (questions (parseQuizCsv ''NewQuestion,WR\<newline>Title,T\<newline>QuestionText,Body''))
   \<and> type (newQuestion ''WR'' \<lparr>title := Some ''T'', questionText := Some ''Body''\<rparr>)
       \<in> {''WR'', ''SA'', ''M'', ''MC'', ''TF'', ''MS'', ''O''}
   \<and> parseQuizCsv ''NewQuestion,WR\<newline>Title,\<newline>QuestionText,Body'' = \<lparr>questions = []\<rparr>"
proof -
  have m: "newQuestion ''WR'' \<lparr>title := Some ''T'', questionText := Some ''Body''\<rparr>
     \<in> set (questions (parseQuizCsv ''NewQuestion,WR\<newline>Title,T\<newline>QuestionText,Body''))"
    by code_simp
  have d: "parseQuizCsv ''NewQuestion,WR\<newline>Title,\<newline>QuestionText,Body'' = \<lparr>questions = []\<rparr>"
    by code_simp
  from returned_questions_have_required_fields [OF m] m d show ?thesis
    by blast
qed

section \<open>No exception, and no question without a NewQuestion record\<close>

lemma feedbackCase_msgs: "feedbackCase v q = Inr (q', msgs) \<Longrightarrow> msgs = []"
  by (auto simp: feedbackCase_def split: if_splits option.splits sum.splits)

lemma switchCase_msgs:
  "switchCase n k v v2 v3 v4 v5 q = Inr (q', msgs) \<Longrightarrow> \<forall>d \<in> set msgs. \<not> isErrorProcessing d"
  using feedbackCase_msgs [of v q q' msgs]
  by (auto simp: switchCase_def answerCase_def scoringCase_def choiceCase_def matchCase_def
      optionCase_def trueCase_def falseCase_def itemCase_def split: if_splits option.splits)

lemma noException_tryCatch:
  assumes "noException st"
  shows "noException (tryCatch st n (switchCase n k v v2 v3 v4 v5 q))"
proof -
  obtain q' msgs where r: "switchCase n k v v2 v3 v4 v5 q = Inr (q', msgs)"
    using switchCase_Inr by blast
  from switchCase_msgs [OF r] assms show ?thesis
    by (auto simp: r tryCatch_def noException_def)
qed

lemma noException_processRow:
  assumes "noException st"
  shows "noException (processRow st row)"
proof (cases "toLowerCase (getValue row 0 []) = ''newquestion''")
  case True
  with assms show ?thesis
    by (auto simp: processRow_def noException_def newQuestionCase_def finishPrevious_def
        split: option.splits)
next
  case False
  show ?thesis
  proof (cases "currentQuestion st")
    case None
    with False assms show ?thesis
      by (simp add: processRow_def noException_def)
  next
    case (Some q)
    with False noException_tryCatch [OF assms] show ?thesis
      by (simp add: processRow_def)
  qed
qed

lemma noException_foldl_processRecord:
  "noException st \<Longrightarrow> noException (foldl processRecord st recs)"
  by (induction recs arbitrary: st) (simp_all add: processRecord_def noException_processRow)

lemma noException_finishLast: "noException st \<Longrightarrow> noException (finishLast st)"
  by (auto simp: noException_def finishLast_def split: option.splits)

lemma noException_runParser: "noException (runParser csvContent)"
  unfolding runParser_def
  by (intro noException_finishLast noException_foldl_processRecord)
     (simp add: noException_def initialState_def)

lemma processRow_idle:
  assumes "currentQuestion st = None" and "\<not> isNewQuestionRow row"
  shows "processRow st row = st\<lparr>currentLineNumber := currentLineNumber st + 1\<rparr>"
  using assms by (simp add: processRow_def isNewQuestionRow_def)

lemma foldl_processRecord_idle:
  assumes "currentQuestion st = None"
    and "\<forall>r \<in> set recs. \<not> isNewQuestionRow (splitCsvRow r)"
  shows "foldl processRecord st recs = st\<lparr>currentLineNumber := currentLineNumber st + length recs\<rparr>"
  using assms
proof (induction recs arbitrary: st)
  case Nil
  then show ?case by simp
next
  case (Cons r recs)
  have step: "processRecord st r = st\<lparr>currentLineNumber := currentLineNumber st + 1\<rparr>"
    using Cons.prems by (simp add: processRecord_def processRow_idle)
  show ?case
    using Cons.prems by (simp add: step Cons.IH)
qed

text \<open>
  Claim C9. \<open>parseQuizCsv\<close> is a total function: every loop of the source is a
  terminating recursion, and for every input it returns a quiz. The only statements of
  the source that can throw are the assignments to the last option or item in the
  \<^verbatim>\<open>feedback\<close> case; they are guarded, so the \<^verbatim>\<open>catch\<close> branch is never taken: the
  console of a run holds no \<open>ErrorProcessing\<close> entry. An input none of whose records
  is a \<^verbatim>\<open>NewQuestion\<close> record, the empty input among them, yields the quiz with no
  question.
\<close>

theorem parseQuizCsv_never_throws:
  "(\<forall>d \<in> set (console (runParser csvContent)). \<not> isErrorProcessing d)
   \<and> ((\<forall>r \<in> set (splitCsvToRecords csvContent). \<not> isNewQuestionRow (splitCsvRow r))
        \<longrightarrow> parseQuizCsv csvContent = \<lparr>questions = []\<rparr>)
   \<and> parseQuizCsv [] = \<lparr>questions = []\<rparr>"
proof (intro conjI impI)
  show "\<forall>d \<in> set (console (runParser csvContent)). \<not> isErrorProcessing d"
    using noException_runParser [of csvContent] by (simp add: noException_def)
next
  assume "\<forall>r \<in> set (splitCsvToRecords csvContent). \<not> isNewQuestionRow (splitCsvRow r)"
  then have "foldl processRecord initialState (splitCsvToRecords csvContent)
      = initialState\<lparr>currentLineNumber :=
          currentLineNumber initialState + length (splitCsvToRecords csvContent)\<rparr>"
    by (intro foldl_processRecord_idle) (simp_all add: initialState_def)
  then show "parseQuizCsv csvContent = \<lparr>questions = []\<rparr>"
    by (simp add: parseQuizCsv_def runParser_def finishLast_def initialState_def)
next
  show "parseQuizCsv [] = \<lparr>questions = []\<rparr>"
    by (simp add: parseQuizCsv_def runParser_def finishLast_def initialState_def
        splitCsvToRecords_def)
qed

text \<open>An input with an unbalanced quote, a malformed record and no \<^verbatim>\<open>NewQuestion\<close>
  record.\<close>

theorem parseQuizCsv_never_throws_witness:
  "map (\<lambda>r. isNewQuestionRow (splitCsvRow r))
       (splitCsvToRecords ''Title,abc\<newline>Option,x,\"y\<newline>,,,'') = [False, False]
   \<and> parseQuizCsv ''Title,abc\<newline>Option,x,\"y\<newline>,,,'' = \<lparr>questions = []\<rparr>
   \<and> list_all (\<lambda>d. \<not> isErrorProcessing d)
        (console (runParser ''Title,abc\<newline>Option,x,\"y\<newline>,,,''))"
proof -
  have m: "map (\<lambda>r. isNewQuestionRow (splitCsvRow r))
       (splitCsvToRecords ''Title,abc\<newline>Option,x,\"y\<newline>,,,'') = [False, False]"
    by code_simp
  have h: "\<forall>r \<in> set (splitCsvToRecords ''Title,abc\<newline>Option,x,\"y\<newline>,,,'').
             \<not> isNewQuestionRow (splitCsvRow r)"
    by code_simp
  from parseQuizCsv_never_throws [of "''Title,abc\<newline>Option,x,\"y\<newline>,,,''"] h m show ?thesis
    by (simp add: list_all_iff)
qed

section \<open>Feedback rows\<close>

lemma feedbackCase_tfLinesOk:
  assumes "feedbackCase v q = Inr (q', msgs)" and "tfLinesOk m q"
  shows "tfLinesOk m q'"
  using assms
  by (auto simp: feedbackCase_def tfLinesOk_def split: if_splits option.splits sum.splits)

lemma switchCase_tfLinesOk:
  assumes "switchCase n k v v2 v3 v4 v5 q = Inr (q', msgs)" and "tfLinesOk m q" and "m < n"
  shows "tfLinesOk n q'"
proof -
  have mono: "tfLinesOk m q \<Longrightarrow> tfLinesOk n q" for q
    using \<open>m < n\<close> by (auto simp: tfLinesOk_def)
  show ?thesis
  proof (cases "k = ''feedback''")
    case True
    with assms have "feedbackCase v q = Inr (q', msgs)"
      by (simp add: switchCase_def)
    from mono [OF feedbackCase_tfLinesOk [OF this assms(2)]] show ?thesis .
  next
    case False
    with assms show ?thesis
      by (auto simp: switchCase_def answerCase_def scoringCase_def choiceCase_def matchCase_def
        optionCase_def trueCase_def falseCase_def itemCase_def tfLinesOk_def
        split: if_splits option.splits)
  qed
qed

lemma tfLinesInvariant_processRow:
  assumes "tfLinesInvariant st"
  shows "tfLinesInvariant (processRow st row)"
proof (cases "toLowerCase (getValue row 0 []) = ''newquestion''")
  case True
  then show ?thesis
    by (simp add: processRow_def tfLinesInvariant_def newQuestionCase_def newQuestion_def
        emptyQuestion_def tfLinesOk_def)
next
  case False
  show ?thesis
  proof (cases "currentQuestion st")
    case None
    with False show ?thesis
      by (simp add: processRow_def tfLinesInvariant_def)
  next
    case (Some q)
    let ?n = "currentLineNumber st + 1"
    let ?r = "switchCase ?n (toLowerCase (getValue row 0 [])) (getValue row 1 [])
         (getValue row 2 []) (getValue row 3 []) (getValue row 4 []) (getValue row 5 []) q"
    obtain q' msgs where r: "?r = Inr (q', msgs)"
      using switchCase_Inr by blast
    from assms Some have "tfLinesOk (currentLineNumber st) q"
      by (simp add: tfLinesInvariant_def)
    from switchCase_tfLinesOk [OF r this] have ok: "tfLinesOk ?n q'"
      by simp
    have "processRow st row = tryCatch st ?n ?r"
      using False Some by (simp add: processRow_def)
    then have "processRow st row = tryCatch st ?n (Inr (q', msgs))"
      by (simp only: r)
    with ok show ?thesis
      by (simp add: tryCatch_def tfLinesInvariant_def)
  qed
qed



lemma processRow_building:
  assumes "toLowerCase (getValue row 0 []) \<noteq> ''newquestion''" and "currentQuestion st = Some q"
  shows "processRow st row =
    tryCatch st (currentLineNumber st + 1)
      (switchCase (currentLineNumber st + 1) (toLowerCase (getValue row 0 []))
         (getValue row 1 []) (getValue row 2 []) (getValue row 3 [])
         (getValue row 4 []) (getValue row 5 []) q)"
  using assms by (simp add: processRow_def)


lemma switchCase_choice: "switchCase n ''choice'' v v2 v3 v4 v5 q = choiceCase n v v2 q"
  by (simp add: switchCase_def)

lemma switchCase_match: "switchCase n ''match'' v v2 v3 v4 v5 q = matchCase n v v2 q"
  by (simp add: switchCase_def)

lemma switchCase_option: "switchCase n ''option'' v v2 v3 v4 v5 q = optionCase n v v2 v3 v4 v5 q"
  by (simp add: switchCase_def)

lemma switchCase_item: "switchCase n ''item'' v v2 v3 v4 v5 q = itemCase n v v2 v3 v5 q"
  by (simp add: switchCase_def)


lemma tryCatch_Inr:
  "tryCatch st n (Inr (q', msgs)) =
     st\<lparr>currentQuestion := Some q', currentLineNumber := n, console := console st @ msgs\<rparr>"
  by (simp add: tryCatch_def)

lemma processRow_switch:
  assumes "currentQuestion st = Some q" and "toLowerCase (getValue row 0 []) = k"
    and "k \<noteq> ''newquestion''"
    and "switchCase (currentLineNumber st + 1) k (getValue row 1 []) (getValue row 2 [])
           (getValue row 3 []) (getValue row 4 []) (getValue row 5 []) q = Inr (q', msgs)"
  shows "processRow st row =
     st\<lparr>currentQuestion := Some q', currentLineNumber := currentLineNumber st + 1,
        console := console st @ msgs\<rparr>"
proof -
  have key: "toLowerCase (getValue row 0 []) \<noteq> ''newquestion''"
    using assms(2,3) by simp
  show ?thesis
    unfolding processRow_building [OF key assms(1)] assms(2) assms(4) tryCatch_Inr ..
qed













section \<open>Matching pairs\<close>

lemma find_unseen: "\<forall>p \<in> set ps. \<not> P p \<Longrightarrow> find P ps = None"
  by (simp add: find_None_iff)

lemma find_first: "\<forall>x \<in> set ps1. \<not> P x \<Longrightarrow> P p \<Longrightarrow> find P (ps1 @ p # ps2) = Some p"
  by (induction ps1) auto

lemma updateFirst_first:
  "\<forall>x \<in> set ps1. \<not> P x \<Longrightarrow> P p \<Longrightarrow> updateFirst P f (ps1 @ p # ps2) = ps1 @ f p # ps2"
  by (induction ps1) auto



lemma matchCase_seen:
  assumes "type q = ''M''" and "\<not> nonPositive (safeParseInt v 0)"
    and "pairsOrEmpty q = ps1 @ p # ps2" and "choiceNo p = safeParseInt v 0"
    and "\<forall>x \<in> set ps1. choiceNo x \<noteq> safeParseInt v 0"
  shows "matchCase n v v2 q = Inr (q\<lparr>pairs := Some (ps1 @ p\<lparr>matchText := v2\<rparr> # ps2)\<rparr>, [])"
  using assms
    find_first [of ps1 "\<lambda>p. choiceNo p = safeParseInt v 0" p ps2]
    updateFirst_first [of ps1 "\<lambda>p. choiceNo p = safeParseInt v 0" p "\<lambda>p. p\<lparr>matchText := v2\<rparr>" ps2]
  by (simp add: matchCase_def)

lemma choiceCase_seen:
  assumes "type q = ''M''" and "\<not> nonPositive (safeParseInt v 0)"
    and "pairsOrEmpty q = ps1 @ p # ps2" and "choiceNo p = safeParseInt v 0"
    and "\<forall>x \<in> set ps1. choiceNo x \<noteq> safeParseInt v 0"
  shows "choiceCase n v v2 q = Inr (q\<lparr>pairs := Some (ps1 @ p\<lparr>choiceText := v2\<rparr> # ps2)\<rparr>, [])"
  using assms
    find_first [of ps1 "\<lambda>p. choiceNo p = safeParseInt v 0" p ps2]
    updateFirst_first [of ps1 "\<lambda>p. choiceNo p = safeParseInt v 0" p "\<lambda>p. p\<lparr>choiceText := v2\<rparr>" ps2]
  by (simp add: choiceCase_def)

lemma choiceCase_unseen:
  assumes "type q = ''M''" and "\<not> nonPositive (safeParseInt v 0)"
    and "\<forall>p \<in> set (pairsOrEmpty q). choiceNo p \<noteq> safeParseInt v 0"
  shows "choiceCase n v v2 q =
     Inr (q\<lparr>pairs := Some (pairsOrEmpty q @
              [\<lparr>choiceNo = safeParseInt v 0, choiceText = v2, matchText = []\<rparr>])\<rparr>, [])"
  using assms find_unseen [of "pairsOrEmpty q" "\<lambda>p. choiceNo p = safeParseInt v 0"]
  by (simp add: choiceCase_def)

lemma switchCase_same_pairs:
  assumes "switchCase n k v v2 v3 v4 v5 q = Inr (q', msgs)"
    and "k \<noteq> ''choice''" and "k \<noteq> ''match''"
  shows "pairs q' = pairs q \<and> type q' = type q"
proof (cases "k = ''feedback''")
  case True
  with assms(1) have "feedbackCase v q = Inr (q', msgs)"
    by (simp add: switchCase_def)
  then show ?thesis
    by (auto simp: feedbackCase_def split: if_splits option.splits sum.splits)
next
  case False
  show ?thesis
  proof (cases "k = ''option''")
    case True
    with assms(1) have "optionCase n v v2 v3 v4 v5 q = Inr (q', msgs)"
      by (simp add: switchCase_def)
    then show ?thesis
      by (auto simp: optionCase_def split: if_splits option.splits sum.splits)
  next
    case option: False
    from assms False option show ?thesis
      by (auto simp: switchCase_def answerCase_def scoringCase_def
          trueCase_def falseCase_def itemCase_def split: if_splits option.splits)
  qed
qed

lemma choiceCase_pairRowStep:
  assumes "type q = ''M''"
  shows "\<exists>q' msgs. choiceCase n v v2 q = Inr (q', msgs) \<and> type q' = ''M''
     \<and> pairs q' = Some (pairRowStep (pairsOrEmpty q) (''choice'', safeParseInt v 0, v2))"
  using assms by (simp add: choiceCase_def split: option.splits)

lemma matchCase_pairRowStep:
  assumes "type q = ''M''"
  shows "\<exists>q' msgs. matchCase n v v2 q = Inr (q', msgs) \<and> type q' = ''M''
     \<and> pairs q' = Some (pairRowStep (pairsOrEmpty q) (''match'', safeParseInt v 0, v2))"
  using assms by (simp add: matchCase_def split: option.splits)

lemma processRow_pairs_step:
  assumes "currentQuestion st = Some q" and "type q = ''M''" and "\<not> isNewQuestionRow row"
  shows "\<exists>q'. currentQuestion (processRow st row) = Some q' \<and> type q' = ''M''
     \<and> stQuestions (processRow st row) = stQuestions st
     \<and> pairsOrEmpty q' = (if isPairRow row then pairRowStep (pairsOrEmpty q) (pairRowOf row)
                           else pairsOrEmpty q)"
proof -
  let ?n = "currentLineNumber st + 1"
  let ?k = "toLowerCase (getValue row 0 [])"
  let ?r = "switchCase ?n ?k (getValue row 1 [])
         (getValue row 2 []) (getValue row 3 []) (getValue row 4 []) (getValue row 5 []) q"
  have nq: "?k \<noteq> ''newquestion''"
    using assms(3) by (simp add: isNewQuestionRow_def)
  obtain q' msgs where r: "?r = Inr (q', msgs)"
    using switchCase_Inr by blast
  have p: "processRow st row = st\<lparr>currentQuestion := Some q', currentLineNumber := ?n,
        console := console st @ msgs\<rparr>"
    by (rule processRow_switch [OF assms(1) refl nq r])
  have "type q' = ''M'' \<and> pairsOrEmpty q' =
      (if isPairRow row then pairRowStep (pairsOrEmpty q) (pairRowOf row) else pairsOrEmpty q)"
  proof (cases "?k = ''choice''")
    case True
    from r choiceCase_pairRowStep [OF assms(2), of ?n "getValue row 1 []" "getValue row 2 []"]
    show ?thesis
      by (auto simp: True switchCase_choice isPairRow_def pairRowOf_def pairsOrEmpty_def)
  next
    case False
    show ?thesis
    proof (cases "?k = ''match''")
      case True
      from r matchCase_pairRowStep [OF assms(2), of ?n "getValue row 1 []" "getValue row 2 []"]
      show ?thesis
        by (auto simp: True switchCase_match isPairRow_def pairRowOf_def pairsOrEmpty_def)
    next
      case match: False
      from switchCase_same_pairs [OF r False match] assms(2) False match show ?thesis
        by (simp add: isPairRow_def pairsOrEmpty_def)
    qed
  qed
  with p show ?thesis
    by simp
qed

lemma pairs_after_rows:
  assumes "currentQuestion st = Some q" and "type q = ''M''"
    and "\<not> list_ex isNewQuestionRow rws"
  shows "\<exists>q'. currentQuestion (foldl processRow st rws) = Some q' \<and> type q' = ''M''
     \<and> stQuestions (foldl processRow st rws) = stQuestions st
     \<and> pairsOrEmpty q' =
         foldl pairRowStep (pairsOrEmpty q) (map pairRowOf (filter isPairRow rws))"
  using assms
proof (induction rws arbitrary: st q)
  case Nil
  then show ?case
    by simp
next
  case (Cons row rws)
  from Cons.prems(3) have nq: "\<not> isNewQuestionRow row" and rest: "\<not> list_ex isNewQuestionRow rws"
    by simp_all
  from processRow_pairs_step [OF Cons.prems(1,2) nq] obtain q1 where
    c: "currentQuestion (processRow st row) = Some q1" and t: "type q1 = ''M''"
    and s: "stQuestions (processRow st row) = stQuestions st"
    and p: "pairsOrEmpty q1 = (if isPairRow row then pairRowStep (pairsOrEmpty q) (pairRowOf row)
                           else pairsOrEmpty q)"
    by blast
  from Cons.IH [OF c t rest] s p show ?case
    by auto
qed

lemma finishLast_complete:
  assumes "currentQuestion st = Some q" and "skipReason q = None"
  shows "stQuestions (finishLast st) = stQuestions st @ [q]"
  using assms by (simp add: finishLast_def)

lemma finishPrevious_complete:
  assumes "currentQuestion st = Some q" and "requiredFields q"
  shows "fst (finishPrevious st n) = stQuestions st @ [q]"
  using assms by (simp add: finishPrevious_def)

lemma capitals_pairs:
  "foldl pairRowStep []
     [(''choice'', Finite 1, ''Ottawa''), (''match'', Finite 1, ''Canada''),
      (''choice'', Finite 2, ''Canberra''), (''match'', Finite 2, ''Australia'')]
   = [\<lparr>choiceNo = Finite 1, choiceText = ''Ottawa'', matchText = ''Canada''\<rparr>,
      \<lparr>choiceNo = Finite 2, choiceText = ''Canberra'', matchText = ''Australia''\<rparr>]"
  by simp

lemma capitals_question:
  assumes "currentQuestion st = Some q" and "type q = ''M''" and "pairsOrEmpty q = []"
    and "\<not> list_ex isNewQuestionRow rws"
    and "map pairRowOf (filter isPairRow rws)
         = [(''choice'', Finite 1, ''Ottawa''), (''match'', Finite 1, ''Canada''),
            (''choice'', Finite 2, ''Canberra''), (''match'', Finite 2, ''Australia'')]"
  shows "\<exists>q'. currentQuestion (assemble st rws) = Some q'
     \<and> pairs q' = Some [\<lparr>choiceNo = Finite 1, choiceText = ''Ottawa'', matchText = ''Canada''\<rparr>,
                       \<lparr>choiceNo = Finite 2, choiceText = ''Canberra'', matchText = ''Australia''\<rparr>]
     \<and> stQuestions (assemble st rws) = stQuestions st
     \<and> (skipReason q' = None \<longleftrightarrow> requiredFields q')
     \<and> (requiredFields q' \<longrightarrow>
          stQuestions (finishLast (assemble st rws)) = stQuestions st @ [q']
          \<and> fst (finishPrevious (assemble st rws) n) = stQuestions st @ [q'])"
proof -
  from pairs_after_rows [OF assms(1,2,4)] obtain q' where
    c: "currentQuestion (foldl processRow st rws) = Some q'" and t: "type q' = ''M''"
    and s: "stQuestions (foldl processRow st rws) = stQuestions st"
    and p: "pairsOrEmpty q' =
         foldl pairRowStep (pairsOrEmpty q) (map pairRowOf (filter isPairRow rws))"
    by blast
  have p': "pairsOrEmpty q' =
      [\<lparr>choiceNo = Finite 1, choiceText = ''Ottawa'', matchText = ''Canada''\<rparr>,
       \<lparr>choiceNo = Finite 2, choiceText = ''Canberra'', matchText = ''Australia''\<rparr>]"
    unfolding p assms(3,5) by (rule capitals_pairs)
  then have ps: "pairs q' =
      Some [\<lparr>choiceNo = Finite 1, choiceText = ''Ottawa'', matchText = ''Canada''\<rparr>,
            \<lparr>choiceNo = Finite 2, choiceText = ''Canberra'', matchText = ''Australia''\<rparr>]"
    by (cases "pairs q'") (simp_all add: pairsOrEmpty_def)
  have k: "skipReason q' = None \<longleftrightarrow> requiredFields q'"
    using t by (simp add: skipReason_def p' pairIncomplete_def)
  have f: "stQuestions (finishLast (assemble st rws)) = stQuestions st @ [q']
          \<and> fst (finishPrevious (assemble st rws) n) = stQuestions st @ [q']"
    if r: "requiredFields q'"
    using finishLast_complete [of "foldl processRow st rws" q'] c k r s
      finishPrevious_complete [of "foldl processRow st rws" q' n]
    by (simp add: assemble_def)
  from c ps s k f show ?thesis
    by (auto simp: assemble_def)
qed

lemma choiceCase_non_positive:
  assumes "type q = ''M''" and "nonPositive (safeParseInt v 0)"
  shows "choiceCase n v v2 q =
     Inr (q\<lparr>pairs := Some (pairsOrEmpty q)\<rparr>, [WarnInvalidNumber n ''Choice'' v (title q)])"
  using assms by (simp add: choiceCase_def)

text \<open>The choice number is the double that \<^verbatim>\<open>parseInt\<close> returns: two numerals that round
  to the same double name the same pair, and the placeholder prints the double.\<close>

lemma choice_number_is_a_double:
  "map pairs (questions (parseQuizCsv
     ''NewQuestion,M\<newline>Title,T\<newline>QuestionText,Q\<newline>Choice,9007199254740993,Ottawa\<newline>Match,9007199254740992,Canada''))
   = [Some [\<lparr>choiceNo = Finite 9007199254740992, choiceText = ''Ottawa'',
             matchText = ''Canada''\<rparr>]]
   \<and> placeholderChoiceText (safeParseInt ''1000000000000000000000'' 0)
       = ''[Choice 1e+21 Placeholder]''"
  by code_simp




text \<open>
  Claim C7, as amended. Let \<open>q\<close> be the matching question in progress and \<open>c\<close> the choice
  number of a record, that is the double \<^verbatim>\<open>parseInt\<close> returns for its second cell, or 0.

  \<^item> If \<open>q\<close> has no pairs yet and the records \<open>rws\<close> that follow, none of them a
    \<^verbatim>\<open>NewQuestion\<close> record, have as their \<^verbatim>\<open>choice\<close> and \<^verbatim>\<open>match\<close> records, in this
    order, choice 1 Ottawa, match 1 Canada, choice 2 Canberra and match 2 Australia
    (whatever other records stand between them), then the question in progress after
    \<open>rws\<close> has exactly the pairs (1, Ottawa, Canada) and (2, Canberra, Australia), no
    question was pushed meanwhile, and each finalization pushes this very question when
    it has its required fields. One such input is also run through \<open>parseQuizCsv\<close>.
  \<^item> A \<^verbatim>\<open>choice\<close> record with \<open>c\<close> positive changes the choice text of the first pair
    whose number is \<open>c\<close> and nothing else, or, when no pair has the number, appends the
    pair with this number, the given choice text and the empty match text.
  \<^item> A \<^verbatim>\<open>choice\<close> record with \<open>c\<close> not positive (zero, negative, or a cell that is not
    a number) changes no pair and appends none; it logs \<open>WarnInvalidNumber\<close>.
  \<^item> A \<^verbatim>\<open>match\<close> record with \<open>c\<close> positive and the number of a pair changes the match
    text of the first such pair and nothing else.
\<close>

theorem matching_pairs_joined_by_choice_number:
  assumes "currentQuestion st = Some q" and "type q = ''M''"
    and "c = safeParseInt (getValue row 1 []) 0"
  shows "(pairsOrEmpty q = [] \<and> \<not> list_ex isNewQuestionRow rws
          \<and> map pairRowOf (filter isPairRow rws)
              = [(''choice'', Finite 1, ''Ottawa''), (''match'', Finite 1, ''Canada''),
                 (''choice'', Finite 2, ''Canberra''), (''match'', Finite 2, ''Australia'')] \<longrightarrow>
        (\<exists>q'. currentQuestion (assemble st rws) = Some q'
           \<and> pairs q' =
               Some [\<lparr>choiceNo = Finite 1, choiceText = ''Ottawa'', matchText = ''Canada''\<rparr>,
                     \<lparr>choiceNo = Finite 2, choiceText = ''Canberra'', matchText = ''Australia''\<rparr>]
           \<and> stQuestions (assemble st rws) = stQuestions st
           \<and> (skipReason q' = None \<longleftrightarrow> requiredFields q')
           \<and> (requiredFields q' \<longrightarrow>
                stQuestions (finishLast (assemble st rws)) = stQuestions st @ [q']
                \<and> fst (finishPrevious (assemble st rws) n) = stQuestions st @ [q'])))
    \<and> map pairs (questions (parseQuizCsv
           ''NewQuestion,M\<newline>Title,Capitals\<newline>QuestionText,Match each capital\<newline>Choice,1,Ottawa\<newline>Match,1,Canada\<newline>Choice,2,Canberra\<newline>Match,2,Australia''))
         = [Some [\<lparr>choiceNo = Finite 1, choiceText = ''Ottawa'', matchText = ''Canada''\<rparr>,
                  \<lparr>choiceNo = Finite 2, choiceText = ''Canberra'', matchText = ''Australia''\<rparr>]]
    \<and> (toLowerCase (getValue row 0 []) = ''choice'' \<and> \<not> nonPositive c
          \<and> pairsOrEmpty q = front @ pair # others
          \<and> choiceNo pair = c \<and> (\<forall>x \<in> set front. choiceNo x \<noteq> c) \<longrightarrow>
        processRow st row =
          st\<lparr>currentQuestion := Some (q\<lparr>pairs :=
                 Some (front @ pair\<lparr>choiceText := getValue row 2 []\<rparr> # others)\<rparr>),
             currentLineNumber := currentLineNumber st + 1\<rparr>)
    \<and> (toLowerCase (getValue row 0 []) = ''choice'' \<and> \<not> nonPositive c
          \<and> (\<forall>x \<in> set (pairsOrEmpty q). choiceNo x \<noteq> c) \<longrightarrow>
        processRow st row =
          st\<lparr>currentQuestion := Some (q\<lparr>pairs := Some (pairsOrEmpty q @
                 [\<lparr>choiceNo = c, choiceText = getValue row 2 [], matchText = []\<rparr>])\<rparr>),
             currentLineNumber := currentLineNumber st + 1\<rparr>)
    \<and> (toLowerCase (getValue row 0 []) = ''choice'' \<and> nonPositive c \<longrightarrow>
        processRow st row =
          st\<lparr>currentQuestion := Some (q\<lparr>pairs := Some (pairsOrEmpty q)\<rparr>),
             currentLineNumber := currentLineNumber st + 1,
             console := console st @
               [WarnInvalidNumber (currentLineNumber st + 1) ''Choice'' (getValue row 1 [])
                  (title q)]\<rparr>)
    \<and> (toLowerCase (getValue row 0 []) = ''match'' \<and> \<not> nonPositive c
          \<and> pairsOrEmpty q = front @ pair # others
          \<and> choiceNo pair = c \<and> (\<forall>x \<in> set front. choiceNo x \<noteq> c) \<longrightarrow>
        processRow st row =
          st\<lparr>currentQuestion := Some (q\<lparr>pairs :=
                 Some (front @ pair\<lparr>matchText := getValue row 2 []\<rparr> # others)\<rparr>),
             currentLineNumber := currentLineNumber st + 1\<rparr>)"
proof (intro conjI impI)
  assume h: "pairsOrEmpty q = [] \<and> \<not> list_ex isNewQuestionRow rws
          \<and> map pairRowOf (filter isPairRow rws)
              = [(''choice'', Finite 1, ''Ottawa''), (''match'', Finite 1, ''Canada''),
                 (''choice'', Finite 2, ''Canberra''), (''match'', Finite 2, ''Australia'')]"
  then have e: "pairsOrEmpty q = []" and nq: "\<not> list_ex isNewQuestionRow rws"
    and rs: "map pairRowOf (filter isPairRow rws)
              = [(''choice'', Finite 1, ''Ottawa''), (''match'', Finite 1, ''Canada''),
                 (''choice'', Finite 2, ''Canberra''), (''match'', Finite 2, ''Australia'')]"
    by simp_all
  show "\<exists>q'. currentQuestion (assemble st rws) = Some q'
           \<and> pairs q' =
               Some [\<lparr>choiceNo = Finite 1, choiceText = ''Ottawa'', matchText = ''Canada''\<rparr>,
                     \<lparr>choiceNo = Finite 2, choiceText = ''Canberra'', matchText = ''Australia''\<rparr>]
           \<and> stQuestions (assemble st rws) = stQuestions st
           \<and> (skipReason q' = None \<longleftrightarrow> requiredFields q')
           \<and> (requiredFields q' \<longrightarrow>
                stQuestions (finishLast (assemble st rws)) = stQuestions st @ [q']
                \<and> fst (finishPrevious (assemble st rws) n) = stQuestions st @ [q'])"
    by (rule capitals_question [OF assms(1,2) e nq rs])
next
  show "map pairs (questions (parseQuizCsv
           ''NewQuestion,M\<newline>Title,Capitals\<newline>QuestionText,Match each capital\<newline>Choice,1,Ottawa\<newline>Match,1,Canada\<newline>Choice,2,Canberra\<newline>Match,2,Australia''))
         = [Some [\<lparr>choiceNo = Finite 1, choiceText = ''Ottawa'', matchText = ''Canada''\<rparr>,
                  \<lparr>choiceNo = Finite 2, choiceText = ''Canberra'', matchText = ''Australia''\<rparr>]]"
    by code_simp
next
  assume h: "toLowerCase (getValue row 0 []) = ''choice'' \<and> \<not> nonPositive c
          \<and> pairsOrEmpty q = front @ pair # others
          \<and> choiceNo pair = c \<and> (\<forall>x \<in> set front. choiceNo x \<noteq> c)"
  then have k: "toLowerCase (getValue row 0 []) = ''choice''"
    by simp
  have "processRow st row =
      st\<lparr>currentQuestion := Some (q\<lparr>pairs :=
             Some (front @ pair\<lparr>choiceText := getValue row 2 []\<rparr> # others)\<rparr>),
         currentLineNumber := currentLineNumber st + 1, console := console st @ []\<rparr>"
    using assms(2) h
    by (intro processRow_switch [OF assms(1) k])
       (simp_all add: switchCase_choice assms(3) choiceCase_seen)
  then show "processRow st row =
      st\<lparr>currentQuestion := Some (q\<lparr>pairs :=
             Some (front @ pair\<lparr>choiceText := getValue row 2 []\<rparr> # others)\<rparr>),
         currentLineNumber := currentLineNumber st + 1\<rparr>"
    by simp
next
  assume h: "toLowerCase (getValue row 0 []) = ''choice'' \<and> \<not> nonPositive c
          \<and> (\<forall>x \<in> set (pairsOrEmpty q). choiceNo x \<noteq> c)"
  then have k: "toLowerCase (getValue row 0 []) = ''choice''"
    by simp
  have "processRow st row =
      st\<lparr>currentQuestion := Some (q\<lparr>pairs := Some (pairsOrEmpty q @
             [\<lparr>choiceNo = c, choiceText = getValue row 2 [], matchText = []\<rparr>])\<rparr>),
         currentLineNumber := currentLineNumber st + 1, console := console st @ []\<rparr>"
    using assms(2) h
    by (intro processRow_switch [OF assms(1) k])
       (simp_all add: switchCase_choice assms(3) choiceCase_unseen)
  then show "processRow st row =
      st\<lparr>currentQuestion := Some (q\<lparr>pairs := Some (pairsOrEmpty q @
             [\<lparr>choiceNo = c, choiceText = getValue row 2 [], matchText = []\<rparr>])\<rparr>),
         currentLineNumber := currentLineNumber st + 1\<rparr>"
    by simp
next
  assume h: "toLowerCase (getValue row 0 []) = ''choice'' \<and> nonPositive c"
  then have k: "toLowerCase (getValue row 0 []) = ''choice''"
    by simp
  show "processRow st row =
      st\<lparr>currentQuestion := Some (q\<lparr>pairs := Some (pairsOrEmpty q)\<rparr>),
         currentLineNumber := currentLineNumber st + 1,
         console := console st @
           [WarnInvalidNumber (currentLineNumber st + 1) ''Choice'' (getValue row 1 [])
              (title q)]\<rparr>"
    using assms(2) h
    by (intro processRow_switch [OF assms(1) k])
       (simp_all add: switchCase_choice assms(3) choiceCase_non_positive)
next
  assume h: "toLowerCase (getValue row 0 []) = ''match'' \<and> \<not> nonPositive c
          \<and> pairsOrEmpty q = front @ pair # others
          \<and> choiceNo pair = c \<and> (\<forall>x \<in> set front. choiceNo x \<noteq> c)"
  then have k: "toLowerCase (getValue row 0 []) = ''match''"
    by simp
  have "processRow st row =
      st\<lparr>currentQuestion := Some (q\<lparr>pairs :=
             Some (front @ pair\<lparr>matchText := getValue row 2 []\<rparr> # others)\<rparr>),
         currentLineNumber := currentLineNumber st + 1, console := console st @ []\<rparr>"
    using assms(2) h
    by (intro processRow_switch [OF assms(1) k])
       (simp_all add: switchCase_match assms(3) matchCase_seen)
  then show "processRow st row =
      st\<lparr>currentQuestion := Some (q\<lparr>pairs :=
             Some (front @ pair\<lparr>matchText := getValue row 2 []\<rparr> # others)\<rparr>),
         currentLineNumber := currentLineNumber st + 1\<rparr>"
    by simp
qed

text \<open>The four records among a title, a question text and a points record, the number
  of one of them written \<^verbatim>\<open>01\<close>; and a \<^verbatim>\<open>Match,1,Canada\<close> record after the choices 1
  and 2.\<close>

theorem matching_pairs_joined_by_choice_number_witness:
  "(\<exists>q'. currentQuestion
           (assemble
              \<lparr>stQuestions = [], currentQuestion = Some (newQuestion ''M''),
               currentLineNumber = 1, console = []\<rparr>
              [[''Title'', ''Capitals''], [''Choice'', ''1'', ''Ottawa''],
               [''QuestionText'', ''Match each capital''], [''Match'', ''01'', ''Canada''],
               [''Choice'', ''2'', ''Canberra''], [''Points'', ''5''],
               [''Match'', ''2'', ''Australia'']]) = Some q'
      \<and> pairs q' =
          Some [\<lparr>choiceNo = Finite 1, choiceText = ''Ottawa'', matchText = ''Canada''\<rparr>,
                \<lparr>choiceNo = Finite 2, choiceText = ''Canberra'', matchText = ''Australia''\<rparr>]
      \<and> stQuestions (finishLast
           (assemble
              \<lparr>stQuestions = [], currentQuestion = Some (newQuestion ''M''),
               currentLineNumber = 1, console = []\<rparr>
              [[''Title'', ''Capitals''], [''Choice'', ''1'', ''Ottawa''],
               [''QuestionText'', ''Match each capital''], [''Match'', ''01'', ''Canada''],
               [''Choice'', ''2'', ''Canberra''], [''Points'', ''5''],
               [''Match'', ''2'', ''Australia'']])) = [q'])
   \<and> processRow
     \<lparr>stQuestions = [],
      currentQuestion = Some (newQuestion ''M'' \<lparr>pairs :=
        Some [\<lparr>choiceNo = Finite 1, choiceText = ''Ottawa'', matchText = []\<rparr>,
              \<lparr>choiceNo = Finite 2, choiceText = ''Canberra'', matchText = []\<rparr>]\<rparr>),
      currentLineNumber = 3, console = []\<rparr>
     [''Match'', ''1'', ''Canada'']
   = \<lparr>stQuestions = [],
      currentQuestion = Some (newQuestion ''M'' \<lparr>pairs :=
        Some [\<lparr>choiceNo = Finite 1, choiceText = ''Ottawa'', matchText = ''Canada''\<rparr>,
              \<lparr>choiceNo = Finite 2, choiceText = ''Canberra'', matchText = []\<rparr>]\<rparr>),
      currentLineNumber = 4, console = []\<rparr>"
proof (intro conjI)
  let ?q = "newQuestion ''M''"
  let ?st = "\<lparr>stQuestions = [], currentQuestion = Some ?q, currentLineNumber = 1, console = []\<rparr>"
  let ?rws = "[[''Title'', ''Capitals''], [''Choice'', ''1'', ''Ottawa''],
               [''QuestionText'', ''Match each capital''], [''Match'', ''01'', ''Canada''],
               [''Choice'', ''2'', ''Canberra''], [''Points'', ''5''],
               [''Match'', ''2'', ''Australia'']]"
  let ?ps = "[\<lparr>choiceNo = Finite 1, choiceText = ''Ottawa'', matchText = ''Canada''\<rparr>,
              \<lparr>choiceNo = Finite 2, choiceText = ''Canberra'', matchText = ''Australia''\<rparr>]"
  have c: "currentQuestion ?st = Some ?q"
    by simp
  have t: "type ?q = ''M''"
    by code_simp
  have e: "pairsOrEmpty ?q = []"
    by code_simp
  have nq: "\<not> list_ex isNewQuestionRow ?rws"
    by code_simp
  have rs: "map pairRowOf (filter isPairRow ?rws)
      = [(''choice'', Finite 1, ''Ottawa''), (''match'', Finite 1, ''Canada''),
         (''choice'', Finite 2, ''Canberra''), (''match'', Finite 2, ''Australia'')]"
    by code_simp
  have r: "list_all requiredFields (case currentQuestion (assemble ?st ?rws) of
      None \<Rightarrow> [] | Some q' \<Rightarrow> [q'])"
    by code_simp
  have "\<exists>q'. currentQuestion (assemble ?st ?rws) = Some q'
           \<and> pairs q' = Some ?ps
           \<and> stQuestions (assemble ?st ?rws) = stQuestions ?st
           \<and> (skipReason q' = None \<longleftrightarrow> requiredFields q')
           \<and> (requiredFields q' \<longrightarrow>
                stQuestions (finishLast (assemble ?st ?rws)) = stQuestions ?st @ [q']
                \<and> fst (finishPrevious (assemble ?st ?rws) 0) = stQuestions ?st @ [q'])"
    by (rule mp [OF matching_pairs_joined_by_choice_number
          [OF c t refl, where rws = ?rws and n = 0, THEN conjunct1]])
       (intro conjI e nq rs)
  then obtain q' where all: "currentQuestion (assemble ?st ?rws) = Some q'
           \<and> pairs q' = Some ?ps
           \<and> stQuestions (assemble ?st ?rws) = stQuestions ?st
           \<and> (skipReason q' = None \<longleftrightarrow> requiredFields q')
           \<and> (requiredFields q' \<longrightarrow>
                stQuestions (finishLast (assemble ?st ?rws)) = stQuestions ?st @ [q']
                \<and> fst (finishPrevious (assemble ?st ?rws) 0) = stQuestions ?st @ [q'])" ..
  note q' = all [THEN conjunct1]
  note p = all [THEN conjunct2, THEN conjunct1]
  note f = all [THEN conjunct2, THEN conjunct2, THEN conjunct2, THEN conjunct2]
  from r have rq: "requiredFields q'"
    unfolding q' by simp
  have fl: "stQuestions (finishLast (assemble ?st ?rws)) = [q']"
    using mp [OF f rq, THEN conjunct1] by simp
  show "\<exists>q'. currentQuestion (assemble ?st ?rws) = Some q' \<and> pairs q' = Some ?ps
      \<and> stQuestions (finishLast (assemble ?st ?rws)) = [q']"
    by (intro exI [of _ q'] conjI q' p fl)
next
  let ?p = "\<lparr>choiceNo = Finite 1, choiceText = ''Ottawa'', matchText = []\<rparr>"
  let ?p2 = "\<lparr>choiceNo = Finite 2, choiceText = ''Canberra'', matchText = []\<rparr>"
  let ?q = "newQuestion ''M'' \<lparr>pairs := Some [?p, ?p2]\<rparr>"
  let ?st = "\<lparr>stQuestions = [], currentQuestion = Some ?q, currentLineNumber = 3, console = []\<rparr>"
  let ?row = "[''Match'', ''1'', ''Canada'']"
  have c: "currentQuestion ?st = Some ?q"
    by simp
  have t: "type ?q = ''M''"
    by code_simp
  have k: "toLowerCase (getValue ?row 0 []) = ''match''"
    by code_simp
  have n: "Finite 1 = safeParseInt (getValue ?row 1 []) 0"
    by code_simp
  have m: "getValue ?row 2 [] = ''Canada''"
    by code_simp
  have e: "pairsOrEmpty ?q = [] @ ?p # [?p2]"
    by code_simp
  have "processRow ?st ?row =
      ?st\<lparr>currentQuestion := Some (?q\<lparr>pairs :=
             Some ([] @ ?p\<lparr>matchText := getValue ?row 2 []\<rparr> # [?p2])\<rparr>),
         currentLineNumber := currentLineNumber ?st + 1\<rparr>"
    using matching_pairs_joined_by_choice_number
      [OF c t n, where front = "[]" and pair = "?p" and others = "[?p2]"] k e
    by simp
  then show "processRow ?st ?row
   = \<lparr>stQuestions = [],
      currentQuestion = Some (newQuestion ''M'' \<lparr>pairs :=
        Some [\<lparr>choiceNo = Finite 1, choiceText = ''Ottawa'', matchText = ''Canada''\<rparr>,
              \<lparr>choiceNo = Finite 2, choiceText = ''Canberra'', matchText = []\<rparr>]\<rparr>),
      currentLineNumber = 4, console = []\<rparr>"
    by (simp add: m)
qed

text \<open>
  Claim C7 as stated says that a \<^verbatim>\<open>choice\<close> record updates the pair with its number or
  appends a new pair. With a number that is not positive it does neither: after
  \<^verbatim>\<open>Choice,0,Canberra\<close> the pairs are what they were and a warning is logged, and the
  records \<^verbatim>\<open>Choice,0\<close>, \<^verbatim>\<open>Choice,-2\<close> and \<^verbatim>\<open>Choice,x\<close> leave the returned question
  with its one pair.
\<close>

theorem choice_with_number_zero_is_skipped:
  "processRow
     \<lparr>stQuestions = [],
      currentQuestion = Some (newQuestion ''M'' \<lparr>pairs :=
        Some [\<lparr>choiceNo = Finite 1, choiceText = ''Ottawa'', matchText = ''Canada''\<rparr>]\<rparr>),
      currentLineNumber = 3, console = []\<rparr>
     [''Choice'', ''0'', ''Canberra'']
   = \<lparr>stQuestions = [],
      currentQuestion = Some (newQuestion ''M'' \<lparr>pairs :=
        Some [\<lparr>choiceNo = Finite 1, choiceText = ''Ottawa'', matchText = ''Canada''\<rparr>]\<rparr>),
      currentLineNumber = 4,
      console = [WarnInvalidNumber 4 ''Choice'' ''0'' None]\<rparr>
   \<and> map pairs (questions (parseQuizCsv
     ''NewQuestion,M\<newline>Title,T\<newline>QuestionText,Q\<newline>Choice,1,Ottawa\<newline>Match,1,Canada\<newline>Choice,0,Canberra\<newline>Choice,-2,Canberra\<newline>Choice,x,Canberra''))
   = [Some [\<lparr>choiceNo = Finite 1, choiceText = ''Ottawa'', matchText = ''Canada''\<rparr>]]"
  by code_simp

section \<open>Cells of item and option records\<close>

lemma orUndefined_getValue:
  "orUndefined (getValue row i []) = (if i < length row \<and> row ! i \<noteq> [] then Some (row ! i) else None)"
  by (simp add: orUndefined_def getValue_def)

lemma getValue_list_update:
  "i \<noteq> j \<Longrightarrow> getValue (row[j := x]) i d = getValue row i d"
  by (simp add: getValue_def)

text \<open>
  Claim C8, as amended. Cells are counted from 1, so \<open>getValue row i\<close> reads cell
  \<open>i + 1\<close>. For an ordering question an \<^verbatim>\<open>item\<close> record appends the item whose text is
  cell 2, whose html flag is true iff cell 3 is \<^verbatim>\<open>html\<close> in any letter case, whose
  feedback is cell 4 (absent when the cell is empty or missing) and whose feedback-html
  flag is true iff cell 6 is \<^verbatim>\<open>html\<close> in any letter case; cell 5 is not read: changing
  it changes nothing. The \<^verbatim>\<open>option\<close> records of multiple-choice and multi-select
  questions read their feedback-html flag from cell 6 as well; what differs is that
  their feedback is cell 5, next to the flag, and their html flag cell 4.
\<close>

theorem item_and_option_cells:
  assumes "currentQuestion st = Some q"
    and "item = \<lparr>itemText = getValue row 1 [],
                  itemHtmlFlag = (toLowerCase (getValue row 2 []) = ''html''),
                  itemFeedback = (if 3 < length row \<and> row ! 3 \<noteq> [] then Some (row ! 3) else None),
                  itemFeedbackHtmlFlag = (toLowerCase (getValue row 5 []) = ''html'')\<rparr>"
    and "mc = \<lparr>percent = safeParseInt (getValue row 1 []) 0, mcText = getValue row 2 [],
                mcHtmlFlag = (toLowerCase (getValue row 3 []) = ''html''),
                mcFeedback = (if 4 < length row \<and> row ! 4 \<noteq> [] then Some (row ! 4) else None),
                mcFeedbackHtmlFlag = (toLowerCase (getValue row 5 []) = ''html'')\<rparr>"
    and "ms = \<lparr>weight = safeParseInt (getValue row 1 []) 0, msText = getValue row 2 [],
                msHtmlFlag = (toLowerCase (getValue row 3 []) = ''html''),
                msFeedback = (if 4 < length row \<and> row ! 4 \<noteq> [] then Some (row ! 4) else None),
                msFeedbackHtmlFlag = (toLowerCase (getValue row 5 []) = ''html'')\<rparr>"
  shows "(type q = ''O'' \<and> toLowerCase (getValue row 0 []) = ''item'' \<longrightarrow>
            processRow st row =
              st\<lparr>currentQuestion := Some (q\<lparr>items := Some (itemsOrEmpty q @ [item])\<rparr>),
                 currentLineNumber := currentLineNumber st + 1\<rparr>
            \<and> processRow st (row[4 := x]) = processRow st row)
       \<and> (type q = ''MC'' \<and> toLowerCase (getValue row 0 []) = ''option'' \<longrightarrow>
            processRow st row =
              st\<lparr>currentQuestion := Some (q\<lparr>options := Some (optionsOrEmpty q @ [MC mc])\<rparr>),
                 currentLineNumber := currentLineNumber st + 1\<rparr>)
       \<and> (type q = ''MS'' \<and> toLowerCase (getValue row 0 []) = ''option'' \<longrightarrow>
            processRow st row =
              st\<lparr>currentQuestion := Some (q\<lparr>options := Some (optionsOrEmpty q @ [MS ms])\<rparr>),
                 currentLineNumber := currentLineNumber st + 1\<rparr>)"
proof (intro conjI impI)
  assume h: "type q = ''O'' \<and> toLowerCase (getValue row 0 []) = ''item''"
  then have k: "toLowerCase (getValue row 0 []) = ''item''"
    by simp
  have "processRow st row =
      st\<lparr>currentQuestion := Some (q\<lparr>items := Some (itemsOrEmpty q @ [item])\<rparr>),
         currentLineNumber := currentLineNumber st + 1, console := console st @ []\<rparr>"
    using h
    by (intro processRow_switch [OF assms(1) k])
       (simp_all add: switchCase_item itemCase_def assms(2) orUndefined_getValue)
  then show a: "processRow st row =
      st\<lparr>currentQuestion := Some (q\<lparr>items := Some (itemsOrEmpty q @ [item])\<rparr>),
         currentLineNumber := currentLineNumber st + 1\<rparr>"
    by simp
  have k': "toLowerCase (getValue (row[4 := x]) 0 []) = ''item''"
    using k by (simp add: getValue_list_update)
  have "processRow st (row[4 := x]) =
      st\<lparr>currentQuestion := Some (q\<lparr>items := Some (itemsOrEmpty q @ [item])\<rparr>),
         currentLineNumber := currentLineNumber st + 1, console := console st @ []\<rparr>"
    using h
    by (intro processRow_switch [OF assms(1) k'])
       (simp_all add: switchCase_item itemCase_def assms(2) orUndefined_getValue
          getValue_list_update)
  with a show "processRow st (row[4 := x]) = processRow st row"
    by simp
next
  assume h: "type q = ''MC'' \<and> toLowerCase (getValue row 0 []) = ''option''"
  then have k: "toLowerCase (getValue row 0 []) = ''option''"
    by simp
  have "processRow st row =
      st\<lparr>currentQuestion := Some (q\<lparr>options := Some (optionsOrEmpty q @ [MC mc])\<rparr>),
         currentLineNumber := currentLineNumber st + 1, console := console st @ []\<rparr>"
    using h
    by (intro processRow_switch [OF assms(1) k])
       (simp_all add: switchCase_option optionCase_def assms(3) orUndefined_getValue)
  then show "processRow st row =
      st\<lparr>currentQuestion := Some (q\<lparr>options := Some (optionsOrEmpty q @ [MC mc])\<rparr>),
         currentLineNumber := currentLineNumber st + 1\<rparr>"
    by simp
next
  assume h: "type q = ''MS'' \<and> toLowerCase (getValue row 0 []) = ''option''"
  then have k: "toLowerCase (getValue row 0 []) = ''option''"
    by simp
  have "processRow st row =
      st\<lparr>currentQuestion := Some (q\<lparr>options := Some (optionsOrEmpty q @ [MS ms])\<rparr>),
         currentLineNumber := currentLineNumber st + 1, console := console st @ []\<rparr>"
    using h
    by (intro processRow_switch [OF assms(1) k])
       (simp_all add: switchCase_option optionCase_def assms(4) orUndefined_getValue)
  then show "processRow st row =
      st\<lparr>currentQuestion := Some (q\<lparr>options := Some (optionsOrEmpty q @ [MS ms])\<rparr>),
         currentLineNumber := currentLineNumber st + 1\<rparr>"
    by simp
qed

text \<open>An item record with all six cells; cell 5 holds \<^verbatim>\<open>html\<close> and is ignored.\<close>

theorem item_and_option_cells_witness:
  "processRow
     \<lparr>stQuestions = [], currentQuestion = Some (newQuestion ''O''), currentLineNumber = 1,
      console = []\<rparr>
     [''Item'', ''First step'', ''HTML'', ''Well done'', ''html'', ''Html'']
   = \<lparr>stQuestions = [],
      currentQuestion = Some (newQuestion ''O'' \<lparr>items :=
        Some [\<lparr>itemText = ''First step'', itemHtmlFlag = True, itemFeedback = Some ''Well done'',
                itemFeedbackHtmlFlag = True\<rparr>]\<rparr>),
      currentLineNumber = 2, console = []\<rparr>"
proof -
  let ?q = "newQuestion ''O''"
  let ?st = "\<lparr>stQuestions = [], currentQuestion = Some ?q, currentLineNumber = 1, console = []\<rparr>"
  let ?row = "[''Item'', ''First step'', ''HTML'', ''Well done'', ''html'', ''Html'']"
  have c: "currentQuestion ?st = Some ?q"
    by simp
  have t: "type ?q = ''O'' \<and> toLowerCase (getValue ?row 0 []) = ''item''"
    by code_simp
  have i: "\<lparr>itemText = getValue ?row 1 [],
            itemHtmlFlag = (toLowerCase (getValue ?row 2 []) = ''html''),
            itemFeedback = (if 3 < length ?row \<and> ?row ! 3 \<noteq> [] then Some (?row ! 3) else None),
            itemFeedbackHtmlFlag = (toLowerCase (getValue ?row 5 []) = ''html'')\<rparr>
      = \<lparr>itemText = ''First step'', itemHtmlFlag = True, itemFeedback = Some ''Well done'',
                itemFeedbackHtmlFlag = True\<rparr>"
    by code_simp
  have e: "itemsOrEmpty ?q = []"
    by code_simp
  from item_and_option_cells [OF c refl refl refl] t
  have "processRow ?st ?row =
      ?st\<lparr>currentQuestion := Some (?q\<lparr>items := Some (itemsOrEmpty ?q @
         [\<lparr>itemText = getValue ?row 1 [],
            itemHtmlFlag = (toLowerCase (getValue ?row 2 []) = ''html''),
            itemFeedback = (if 3 < length ?row \<and> ?row ! 3 \<noteq> [] then Some (?row ! 3) else None),
            itemFeedbackHtmlFlag = (toLowerCase (getValue ?row 5 []) = ''html'')\<rparr>])\<rparr>),
         currentLineNumber := currentLineNumber ?st + 1\<rparr>"
    by blast
  then show ?thesis
    unfolding i e by simp
qed

text \<open>
  Claim C8 as stated says that the options of multiple-choice and multi-select questions
  read the feedback-html flag from cell 5. They do not: with \<^verbatim>\<open>html\<close> in cell 5 and
  nothing in cell 6 the flag of the option is false and \<^verbatim>\<open>html\<close> is its feedback; with
  \<^verbatim>\<open>html\<close> in cell 6 the flag is true.
\<close>

theorem option_feedback_flag_not_in_cell_5:
  "toLowerCase ([''Option'', ''100'', ''Paris'', [], ''html'', []] ! 4) = ''html''
   \<and> processRow
       \<lparr>stQuestions = [], currentQuestion = Some (newQuestion ''MC''), currentLineNumber = 1,
        console = []\<rparr>
       [''Option'', ''100'', ''Paris'', [], ''html'', []]
     = \<lparr>stQuestions = [],
        currentQuestion = Some (newQuestion ''MC'' \<lparr>options :=
          Some [MC \<lparr>percent = Finite 100, mcText = ''Paris'', mcHtmlFlag = False,
                    mcFeedback = Some ''html'', mcFeedbackHtmlFlag = False\<rparr>]\<rparr>),
        currentLineNumber = 2, console = []\<rparr>
   \<and> processRow
       \<lparr>stQuestions = [], currentQuestion = Some (newQuestion ''MC''), currentLineNumber = 1,
        console = []\<rparr>
       [''Option'', ''100'', ''Paris'', [], [], ''html'']
     = \<lparr>stQuestions = [],
        currentQuestion = Some (newQuestion ''MC'' \<lparr>options :=
          Some [MC \<lparr>percent = Finite 100, mcText = ''Paris'', mcHtmlFlag = False,
                    mcFeedback = None, mcFeedbackHtmlFlag = True\<rparr>]\<rparr>),
        currentLineNumber = 2, console = []\<rparr>"
  by code_simp

section \<open>NewQuestion records\<close>

text \<open>The parser is the assembler run on the tokenized records.\<close>

lemma runParser_assemble:
  "runParser csvContent =
     finishLast (assemble initialState (map splitCsvRow (splitCsvToRecords csvContent)))"
proof -
  have "foldl processRecord st recs = foldl processRow st (map splitCsvRow recs)" for st recs
    by (induction recs arbitrary: st) (simp_all add: processRecord_def)
  then show ?thesis
    by (simp add: runParser_def assemble_def)
qed

lemma assemble_Cons: "assemble st (r # rs) = assemble (processRow st r) rs"
  by (simp add: assemble_def)

lemma assemble_append: "assemble st (rs @ rs') = assemble (assemble st rs) rs'"
  by (simp add: assemble_def)

lemma assemble_idle:
  assumes "currentQuestion st = None" and "\<forall>r \<in> set rs. \<not> isNewQuestionRow r"
  shows "assemble st rs = st\<lparr>currentLineNumber := currentLineNumber st + length rs\<rparr>"
  using assms
proof (induction rs arbitrary: st)
  case Nil
  then show ?case by (simp add: assemble_def)
next
  case (Cons r rs)
  have step: "processRow st r = st\<lparr>currentLineNumber := currentLineNumber st + 1\<rparr>"
    using Cons.prems by (simp add: processRow_idle)
  show ?case
    using Cons.prems by (simp add: assemble_Cons step Cons.IH)
qed

lemma fst_finishPrevious:
  "fst (finishPrevious st n) =
     stQuestions st @ (case currentQuestion st of
                         None \<Rightarrow> [] | Some q \<Rightarrow> if requiredFields q then [q] else [])"
  by (simp add: finishPrevious_def split: option.splits)

lemma newQuestionCase_unknown:
  assumes "code \<notin> set knownTypes"
  shows "newQuestionCase st n code =
     \<lparr>stQuestions = fst (finishPrevious st n), currentQuestion = None, currentLineNumber = n,
      console = console st @ snd (finishPrevious st n) @ [WarnUnknownType n code]\<rparr>"
  using assms by (simp add: newQuestionCase_def)

subsection \<open>Moving the record counter\<close>

text \<open>Every case of the switch, run on a question whose \<open>definedLine\<close> values are moved
  by \<open>k\<close> with the record number moved by \<open>k\<close>, gives the moved result.\<close>

lemma shiftsTo_Inr: "q2 = shiftLines k q1 \<Longrightarrow> shiftsTo k (Inr (q1, m1)) (Inr (q2, m2))"
  by (simp add: shiftsTo_def)

lemma shiftLines_simps:
  "type (shiftLines k q) = type q" "title (shiftLines k q) = title q"
  "questionText (shiftLines k q) = questionText q" "points (shiftLines k q) = points q"
  "pairs (shiftLines k q) = pairs q" "options (shiftLines k q) = options q"
  "items (shiftLines k q) = items q" "bestAnswer (shiftLines k q) = bestAnswer q"
  "trueOption (shiftLines k q) = map_option (shiftLine k) (trueOption q)"
  "falseOption (shiftLines k q) = map_option (shiftLine k) (falseOption q)"
  by (simp_all add: shiftLines_def)

lemma feedbackCase_shift:
  assumes "tfLinesOk m q"
  shows "shiftsTo k (feedbackCase v q) (feedbackCase v (shiftLines k q))"
proof (cases "type q = ''TF''")
  case True
  with assms show ?thesis
    by (cases "trueOption q"; cases "falseOption q")
       (auto simp: feedbackCase_def tfLinesOk_def shiftLines_def shiftLine_def shiftsTo_def)
next
  case False
  then show ?thesis
    by (cases "options q"; cases "items q")
       (auto simp: feedbackCase_def shiftLines_def shiftsTo_def)
qed

lemma answerCase_shift: "shiftsTo k (answerCase n v2 v3 q) (answerCase (n + k) v2 v3 (shiftLines k q))"
  by (simp add: answerCase_def shiftsTo_def shiftLines_def)

lemma scoringCase_shift: "shiftsTo k (scoringCase n v q) (scoringCase (n + k) v (shiftLines k q))"
  by (simp add: scoringCase_def shiftsTo_def shiftLines_def)

lemma choiceCase_shift: "shiftsTo k (choiceCase n v v2 q) (choiceCase (n + k) v v2 (shiftLines k q))"
  by (simp add: choiceCase_def shiftsTo_def shiftLines_def pairsOrEmpty_def split: option.splits)

lemma matchCase_shift: "shiftsTo k (matchCase n v v2 q) (matchCase (n + k) v v2 (shiftLines k q))"
  by (simp add: matchCase_def shiftsTo_def shiftLines_def pairsOrEmpty_def split: option.splits)

lemma optionCase_shift:
  "shiftsTo k (optionCase n v v2 v3 v4 v5 q) (optionCase (n + k) v v2 v3 v4 v5 (shiftLines k q))"
  by (simp add: optionCase_def shiftsTo_def shiftLines_def optionsOrEmpty_def)

lemma trueCase_shift: "shiftsTo k (trueCase n v v2 v3 q) (trueCase (n + k) v v2 v3 (shiftLines k q))"
  by (simp add: trueCase_def shiftsTo_def shiftLines_def shiftLine_def)

lemma falseCase_shift: "shiftsTo k (falseCase n v v2 v3 q) (falseCase (n + k) v v2 v3 (shiftLines k q))"
  by (simp add: falseCase_def shiftsTo_def shiftLines_def shiftLine_def)

lemma itemCase_shift:
  "shiftsTo k (itemCase n v v2 v3 v5 q) (itemCase (n + k) v v2 v3 v5 (shiftLines k q))"
  by (simp add: itemCase_def shiftsTo_def shiftLines_def itemsOrEmpty_def)

lemma shiftLines_commute:
  "(shiftLines k q)\<lparr>questionId := a\<rparr> = shiftLines k (q\<lparr>questionId := a\<rparr>)"
  "(shiftLines k q)\<lparr>title := a\<rparr> = shiftLines k (q\<lparr>title := a\<rparr>)"
  "(shiftLines k q)\<lparr>questionText := a\<rparr> = shiftLines k (q\<lparr>questionText := a\<rparr>)"
  "(shiftLines k q)\<lparr>points := b\<rparr> = shiftLines k (q\<lparr>points := b\<rparr>)"
  "(shiftLines k q)\<lparr>difficulty := b\<rparr> = shiftLines k (q\<lparr>difficulty := b\<rparr>)"
  "(shiftLines k q)\<lparr>image := a\<rparr> = shiftLines k (q\<lparr>image := a\<rparr>)"
  "(shiftLines k q)\<lparr>hint := a\<rparr> = shiftLines k (q\<lparr>hint := a\<rparr>)"
  "(shiftLines k q)\<lparr>initialText := a\<rparr> = shiftLines k (q\<lparr>initialText := a\<rparr>)"
  "(shiftLines k q)\<lparr>answerKey := a\<rparr> = shiftLines k (q\<lparr>answerKey := a\<rparr>)"
  "(shiftLines k q)\<lparr>inputBox := c\<rparr> = shiftLines k (q\<lparr>inputBox := c\<rparr>)"
  by (simp_all add: shiftLines_def)

lemma switchCase_shift:
  assumes "tfLinesOk m q"
  shows "shiftsTo k (switchCase n key v v2 v3 v4 v5 q)
           (switchCase (n + k) key v v2 v3 v4 v5 (shiftLines k q))"
  unfolding switchCase_def
  by (simp add: feedbackCase_shift [OF assms] answerCase_shift scoringCase_shift
      choiceCase_shift matchCase_shift optionCase_shift trueCase_shift falseCase_shift
      itemCase_shift shiftsTo_Inr shiftLines_commute)

lemma requiredFields_shift: "requiredFields (shiftLines k q) = requiredFields q"
  by (simp add: requiredFields_def shiftLines_def)

lemma skipReason_shift: "skipReason (shiftLines k q) = skipReason q"
  by (auto simp: skipReason_def requiredFields_shift shiftLines_simps pairsOrEmpty_def
      optionsOrEmpty_def itemsOrEmpty_def)

lemma shiftLines_newQuestion: "shiftLines k (newQuestion code) = newQuestion code"
  by (simp add: shiftLines_def newQuestion_def emptyQuestion_def)

lemma tfLinesOk_newQuestion: "tfLinesOk n (newQuestion code)"
  by (simp add: tfLinesOk_def newQuestion_def emptyQuestion_def)

lemma shiftedFrom_newQuestionCase:
  assumes "shiftedFrom common k s t"
  shows "shiftedFrom common k (newQuestionCase s n code) (newQuestionCase t (n + k) code)"
proof -
  from assms obtain new where s: "stQuestions s = common @ new"
    and t: "stQuestions t = common @ map (shiftLines k) new"
    and c: "currentQuestion t = map_option (shiftLines k) (currentQuestion s)"
    by (auto simp: shiftedFrom_def)
  have "\<exists>new'. fst (finishPrevious s n) = common @ new'
      \<and> fst (finishPrevious t (n + k)) = common @ map (shiftLines k) new'"
  proof (cases "currentQuestion s")
    case None
    with s t c show ?thesis
      by (simp add: fst_finishPrevious)
  next
    case (Some q)
    with s t c show ?thesis
      by (simp add: fst_finishPrevious requiredFields_shift)
  qed
  then show ?thesis
    by (simp add: shiftedFrom_def newQuestionCase_def shiftLines_newQuestion
        tfLinesInvariant_def tfLinesOk_newQuestion)
qed

lemma shiftedFrom_processRow:
  assumes "shiftedFrom common k s t"
  shows "shiftedFrom common k (processRow s r) (processRow t r)"
proof (cases "toLowerCase (getValue r 0 []) = ''newquestion''")
  case True
  from assms have line: "currentLineNumber t + 1 = (currentLineNumber s + 1) + k"
    by (simp add: shiftedFrom_def)
  have "processRow s r = newQuestionCase s (currentLineNumber s + 1) (getValue r 1 [])"
    and "processRow t r = newQuestionCase t (currentLineNumber t + 1) (getValue r 1 [])"
    using True by (simp_all add: processRow_def)
  then show ?thesis
    unfolding line by (simp only: shiftedFrom_newQuestionCase [OF assms])
next
  case False
  from assms have inv: "tfLinesInvariant s"
    by (simp add: shiftedFrom_def)
  have inv': "tfLinesInvariant (processRow s r)"
    by (rule tfLinesInvariant_processRow [OF inv])
  show ?thesis
  proof (cases "currentQuestion s")
    case None
    with False assms show ?thesis
      by (simp add: processRow_def shiftedFrom_def tfLinesInvariant_def)
  next
    case (Some q)
    let ?n = "currentLineNumber s + 1"
    from inv Some have ok: "tfLinesOk (currentLineNumber s) q"
      by (simp add: tfLinesInvariant_def)
    from assms Some have Some': "currentQuestion t = Some (shiftLines k q)"
      and line: "currentLineNumber t + 1 = ?n + k"
      by (simp_all add: shiftedFrom_def)
    from switchCase_shift [OF ok, of k ?n "toLowerCase (getValue r 0 [])" "getValue r 1 []"
        "getValue r 2 []" "getValue r 3 []" "getValue r 4 []" "getValue r 5 []"]
    obtain q' msgs msgs' where
      a: "switchCase ?n (toLowerCase (getValue r 0 [])) (getValue r 1 []) (getValue r 2 [])
         (getValue r 3 []) (getValue r 4 []) (getValue r 5 []) q = Inr (q', msgs)"
      and b: "switchCase (?n + k) (toLowerCase (getValue r 0 [])) (getValue r 1 [])
         (getValue r 2 []) (getValue r 3 []) (getValue r 4 []) (getValue r 5 [])
         (shiftLines k q) = Inr (shiftLines k q', msgs')"
      unfolding shiftsTo_def by blast
    have ps: "processRow s r = s\<lparr>currentQuestion := Some q', currentLineNumber := ?n,
                              console := console s @ msgs\<rparr>"
      by (rule processRow_switch [OF Some refl False a])
    have pt: "processRow t r = t\<lparr>currentQuestion := Some (shiftLines k q'),
        currentLineNumber := currentLineNumber t + 1, console := console t @ msgs'\<rparr>"
      by (rule processRow_switch [OF Some' refl False]) (simp only: line b)
    from assms inv' show ?thesis
      unfolding pt by (simp add: shiftedFrom_def ps)
  qed
qed

lemma shiftedFrom_assemble:
  "shiftedFrom common k s t \<Longrightarrow> shiftedFrom common k (assemble s rs) (assemble t rs)"
  by (induction rs arbitrary: s t) (simp_all add: assemble_def shiftedFrom_processRow)

lemma shiftedFrom_finishLast:
  assumes "shiftedFrom common k s t"
  shows "\<exists>new. stQuestions (finishLast s) = common @ new
           \<and> stQuestions (finishLast t) = common @ map (shiftLines k) new"
proof -
  from assms obtain new where s: "stQuestions s = common @ new"
    and t: "stQuestions t = common @ map (shiftLines k) new"
    and c: "currentQuestion t = map_option (shiftLines k) (currentQuestion s)"
    by (auto simp: shiftedFrom_def)
  show ?thesis
  proof (cases "currentQuestion s")
    case None
    with s t c show ?thesis
      by (simp add: finishLast_def)
  next
    case (Some q)
    show ?thesis
    proof (cases "skipReason q")
      case None
      with Some s t c show ?thesis
        by (simp add: finishLast_def skipReason_shift)
    next
      case (Some reason)
      with \<open>currentQuestion s = Some q\<close> s t c show ?thesis
        by (simp add: finishLast_def skipReason_shift)
    qed
  qed
qed

text \<open>
  Claim C3, as amended. Let \<open>bad\<close> be a \<^verbatim>\<open>NewQuestion\<close> record whose second cell is not a
  known code, followed by the records \<open>ign\<close>, none of them a \<^verbatim>\<open>NewQuestion\<close> record.
  From any state, the block leaves the parser with no question in progress, the record
  counter advanced by the length of the block and one \<open>WarnUnknownType\<close> diagnostic
  more; the questions are those \<open>finishPrevious\<close> gives, that is the ones before the
  block and the question that was in progress if it has its required fields: the block
  adds no question of its own. The records \<open>rest\<close> from the next \<^verbatim>\<open>NewQuestion\<close> record
  on give, after the block, the questions \<open>new\<close> they give without it, except that the
  \<open>definedLine\<close> of every true/false option is larger by the number of records of the
  block.
\<close>

theorem unknown_type_block_is_skipped:
  assumes "isNewQuestionRow bad" and "getValue bad 1 [] \<notin> set knownTypes"
    and "\<forall>r \<in> set ign. \<not> isNewQuestionRow r"
    and "n = currentLineNumber st + 1"
  shows "assemble st (bad # ign) =
           \<lparr>stQuestions = fst (finishPrevious st n), currentQuestion = None,
            currentLineNumber = n + length ign,
            console = console st @ snd (finishPrevious st n)
                        @ [WarnUnknownType n (getValue bad 1 [])]\<rparr>
       \<and> fst (finishPrevious st n) =
           stQuestions st @ (case currentQuestion st of
                               None \<Rightarrow> [] | Some q \<Rightarrow> if requiredFields q then [q] else [])
       \<and> (rest \<noteq> [] \<and> isNewQuestionRow (hd rest) \<longrightarrow>
            (\<exists>new. stQuestions (finishLast (assemble st rest))
                      = fst (finishPrevious st n) @ new
                  \<and> stQuestions (finishLast (assemble st (bad # ign @ rest)))
                      = fst (finishPrevious st n) @ map (shiftLines (1 + length ign)) new))"
proof (intro conjI impI)
  let ?st1 = "\<lparr>stQuestions = fst (finishPrevious st n), currentQuestion = None,
            currentLineNumber = n,
            console = console st @ snd (finishPrevious st n)
                        @ [WarnUnknownType n (getValue bad 1 [])]\<rparr>"
  have first: "processRow st bad = ?st1"
    using assms(1,2,4) by (simp add: processRow_def isNewQuestionRow_def newQuestionCase_unknown)
  show block: "assemble st (bad # ign) =
           \<lparr>stQuestions = fst (finishPrevious st n), currentQuestion = None,
            currentLineNumber = n + length ign,
            console = console st @ snd (finishPrevious st n)
                        @ [WarnUnknownType n (getValue bad 1 [])]\<rparr>"
    unfolding assemble_Cons first
    using assemble_idle [of ?st1 ign] assms(3) by simp
  show "fst (finishPrevious st n) =
           stQuestions st @ (case currentQuestion st of
                               None \<Rightarrow> [] | Some q \<Rightarrow> if requiredFields q then [q] else [])"
    by (rule fst_finishPrevious)
  assume r: "rest \<noteq> [] \<and> isNewQuestionRow (hd rest)"
  then obtain nq rest' where rest: "rest = nq # rest'" and nq: "isNewQuestionRow nq"
    by (cases rest) auto
  let ?a = "assemble st (bad # ign)"
  let ?k = "1 + length ign"
  have "shiftedFrom (fst (finishPrevious st n)) ?k (processRow st nq) (processRow ?a nq)"
    using nq assms(4) unfolding block
    by (simp add: processRow_def isNewQuestionRow_def newQuestionCase_def shiftedFrom_def
        fst_finishPrevious shiftLines_newQuestion tfLinesInvariant_def tfLinesOk_newQuestion)
  then have "shiftedFrom (fst (finishPrevious st n)) ?k
      (assemble (processRow st nq) rest') (assemble (processRow ?a nq) rest')"
    by (rule shiftedFrom_assemble)
  then have "shiftedFrom (fst (finishPrevious st n)) ?k
      (assemble st rest) (assemble st (bad # ign @ rest))"
    using assemble_append [of st "bad # ign" rest] by (simp add: rest assemble_Cons)
  then show "\<exists>new. stQuestions (finishLast (assemble st rest))
                      = fst (finishPrevious st n) @ new
                  \<and> stQuestions (finishLast (assemble st (bad # ign @ rest)))
                      = fst (finishPrevious st n) @ map (shiftLines ?k) new"
    by (rule shiftedFrom_finishLast)
qed

text \<open>A block \<^verbatim>\<open>NewQuestion,ZZ\<close>, \<^verbatim>\<open>Title,x\<close> before a true/false question.\<close>

theorem unknown_type_block_is_skipped_witness:
  "assemble initialState [[''NewQuestion'', ''ZZ''], [''Title'', ''x'']] =
     \<lparr>stQuestions = [], currentQuestion = None, currentLineNumber = 2,
      console = [WarnUnknownType 1 ''ZZ'']\<rparr>
   \<and> stQuestions (finishLast (assemble initialState
         ([''NewQuestion'', ''ZZ''] # [[''Title'', ''x'']] @
          [[''NewQuestion'', ''TF''], [''Title'', ''A''], [''QuestionText'', ''B''],
           [''True'', ''100''], [''False'', ''0'']]))) =
     map (shiftLines 2) (stQuestions (finishLast (assemble initialState
          [[''NewQuestion'', ''TF''], [''Title'', ''A''], [''QuestionText'', ''B''],
           [''True'', ''100''], [''False'', ''0'']])))"
proof -
  let ?bad = "[''NewQuestion'', ''ZZ'']"
  let ?ign = "[[''Title'', ''x'']]"
  let ?rest = "[[''NewQuestion'', ''TF''], [''Title'', ''A''], [''QuestionText'', ''B''],
           [''True'', ''100''], [''False'', ''0'']]"
  have h1: "isNewQuestionRow ?bad"
    by code_simp
  have h2: "getValue ?bad 1 [] \<notin> set knownTypes"
    by code_simp
  have h3: "\<forall>r \<in> set ?ign. \<not> isNewQuestionRow r"
    by code_simp
  have h4: "1 = currentLineNumber initialState + 1"
    by (simp add: initialState_def)
  have r: "?rest \<noteq> [] \<and> isNewQuestionRow (hd ?rest)"
    by code_simp
  have f: "finishPrevious initialState 1 = ([], [])"
    by code_simp
  have c: "console initialState = []"
    by (simp add: initialState_def)
  have v: "getValue ?bad 1 [] = ''ZZ''"
    by code_simp
  note inst = unknown_type_block_is_skipped [OF h1 h2 h3 h4, of ?rest]
  have a: "assemble initialState (?bad # ?ign) =
     \<lparr>stQuestions = [], currentQuestion = None, currentLineNumber = 2,
      console = [WarnUnknownType 1 ''ZZ'']\<rparr>"
    using inst unfolding f c v by simp
  from inst r obtain new where
    "stQuestions (finishLast (assemble initialState ?rest)) = fst (finishPrevious initialState 1) @ new"
    and "stQuestions (finishLast (assemble initialState (?bad # ?ign @ ?rest)))
       = fst (finishPrevious initialState 1) @ map (shiftLines (1 + length ?ign)) new"
    by blast
  then have b: "stQuestions (finishLast (assemble initialState (?bad # ?ign @ ?rest)))
       = map (shiftLines 2) (stQuestions (finishLast (assemble initialState ?rest)))"
    unfolding f by (simp add: numeral_2_eq_2)
  from a b show ?thesis
    by blast
qed

text \<open>
  Claim C3 as stated says that the block after the malformed one is parsed exactly as if
  the malformed block were absent. The record counter is not reset: a true/false
  question after a malformed block of two records has its \<open>definedLine\<close> values two
  larger, and the two quizzes differ.
\<close>

theorem unknown_type_block_shifts_defined_lines:
  "map (\<lambda>q. map_option definedLine (trueOption q))
     (questions (parseQuizCsv
        ''NewQuestion,ZZ\<newline>Title,x\<newline>NewQuestion,TF\<newline>Title,A\<newline>QuestionText,B\<newline>True,100\<newline>False,0''))
     = [Some 6]
   \<and> map (\<lambda>q. map_option definedLine (trueOption q))
     (questions (parseQuizCsv
        ''NewQuestion,TF\<newline>Title,A\<newline>QuestionText,B\<newline>True,100\<newline>False,0''))
     = [Some 4]
   \<and> parseQuizCsv
        ''NewQuestion,ZZ\<newline>Title,x\<newline>NewQuestion,TF\<newline>Title,A\<newline>QuestionText,B\<newline>True,100\<newline>False,0''
     \<noteq> parseQuizCsv
        ''NewQuestion,TF\<newline>Title,A\<newline>QuestionText,B\<newline>True,100\<newline>False,0''"
  by code_simp

section \<open>Finalization in mid-stream\<close>

text \<open>
  Claim C1. A question that ends because the next \<^verbatim>\<open>NewQuestion\<close> record arrives is pushed
  when \<open>requiredFields\<close> holds; the checks by type of \<open>skipReason\<close> are made only at
  the end of the input. A multiple-choice question without options, followed by another
  question, is returned although \<open>skipReason\<close> rejects it; the same question at the end
  of the input is dropped.
\<close>

theorem midstream_finalization_skips_type_checks:
  "questions (parseQuizCsv
     ''NewQuestion,MC\<newline>Title,T\<newline>QuestionText,Q\<newline>NewQuestion,WR\<newline>Title,U\<newline>QuestionText,R'')
     = [newQuestion ''MC'' \<lparr>title := Some ''T'', questionText := Some ''Q''\<rparr>,
        newQuestion ''WR'' \<lparr>title := Some ''U'', questionText := Some ''R''\<rparr>]
   \<and> options (newQuestion ''MC'' \<lparr>title := Some ''T'', questionText := Some ''Q''\<rparr>) = None
   \<and> skipReason (newQuestion ''MC'' \<lparr>title := Some ''T'', questionText := Some ''Q''\<rparr>)
       = Some MultipleChoiceNoOptions
   \<and> questions (parseQuizCsv ''NewQuestion,MC\<newline>Title,T\<newline>QuestionText,Q'') = []"
  by code_simp

section \<open>Record splitter\<close>


lemma splitOnLineFeed_nonempty: "splitOnLineFeed cur s \<noteq> []"
  by (induction s arbitrary: cur) auto

lemma dropEmptyLast_Cons:
  "rs \<noteq> [] \<Longrightarrow> dropEmptyLast (r # rs) = r # dropEmptyLast rs"
  by (simp add: dropEmptyLast_def)

lemma splitRecordsLoop_plain:
  "noLineFeedInQuotes q s \<Longrightarrow> splitRecordsLoop q cur s = dropEmptyLast (splitOnLineFeed cur s)"
proof (induction q cur s rule: splitRecordsLoop.induct)
  case (1 inQuotes current)
  then show ?case
    by (simp add: dropEmptyLast_def)
next
  case (2 inQuotes current c)
  then show ?case
    by (auto simp: dropEmptyLast_def)
next
  case (3 inQuotes current c d cs)
  show ?case
  proof (cases "c = dquote")
    case True
    with 3 show ?thesis
      by (cases "d = dquote") (auto split: if_splits)
  next
    case False
    with 3 show ?thesis
      by (auto simp: dropEmptyLast_Cons splitOnLineFeed_nonempty split: if_splits)
  qed
qed

lemma trim_Nil: "trim [] = []"
  by (simp add: trim_def)

lemma in_set_dropWhile_snoc: "\<not> P c \<Longrightarrow> c \<in> set (dropWhile P (xs @ [c]))"
  by (induction xs) auto

lemma trim_not_blank:
  assumes "trim r \<noteq> []"
  shows "\<exists>c \<in> set (trim r). \<not> isWhiteSpace c"
proof -
  have "trim r = []" if "dropWhile isWhiteSpace r = []"
    unfolding trim_def that by simp
  with assms have ne: "dropWhile isWhiteSpace r \<noteq> []"
    by blast
  then obtain c rest where d: "dropWhile isWhiteSpace r = c # rest"
    by (cases "dropWhile isWhiteSpace r") blast+
  with hd_dropWhile [OF ne] have c: "\<not> isWhiteSpace c"
    by simp
  have "c \<in> set (dropWhile isWhiteSpace (rev rest @ [c]))"
    using c by (rule in_set_dropWhile_snoc [of isWhiteSpace c "rev rest"])
  then have "c \<in> set (trim r)"
    unfolding trim_def d by simp
  with c show ?thesis
    by blast
qed

lemma keepRecord_trim: "keepRecord (trim r) \<longleftrightarrow> length (trim r) > 0"
  using trim_not_blank [of r] by (auto simp: keepRecord_def)

lemma filter_keepRecord_trim:
  "filter keepRecord (map trim xs) = filter (\<lambda>row. length row > 0) (map trim xs)"
  by (induction xs) (simp_all add: keepRecord_trim)

lemma filter_trim_dropEmptyLast:
  "filter keepRecord (map trim (dropEmptyLast rs)) = filter (\<lambda>row. length row > 0) (map trim rs)"
proof (cases "rs \<noteq> [] \<and> last rs = []")
  case True
  then obtain bs where rs: "rs = bs @ [[]]"
    using append_butlast_last_id [of rs] by metis
  show ?thesis
    unfolding rs by (simp add: dropEmptyLast_def filter_keepRecord_trim trim_Nil)
next
  case False
  then show ?thesis
    by (auto simp: dropEmptyLast_def filter_keepRecord_trim)
qed

text \<open>
  Claim C5. For every input in which no line feed lies inside a quoted span,
  \<open>splitCsvToRecords\<close> returns the same records, in the same order, as the plain
  splitting of the superseded parser: split on the line feed, trim each line, discard
  the empty (or white-space only) lines.
\<close>

theorem splitter_refines_plain_line_split:
  assumes "noLineFeedInQuotes False csvString"
  shows "splitCsvToRecords csvString = plainLineSplit csvString"
  using splitRecordsLoop_plain [OF assms, of "[]"]
  by (simp add: splitCsvToRecords_def plainLineSplit_def filter_trim_dropEmptyLast)

text \<open>An input with a quoted comma, padded and empty lines, and no quoted line feed.\<close>

theorem splitter_refines_plain_line_split_witness:
  "noLineFeedInQuotes False ''NewQuestion,WR\<newline>  Title,\"a, b\" \<newline>\<newline>QuestionText,x\<newline>''
   \<and> splitCsvToRecords ''NewQuestion,WR\<newline>  Title,\"a, b\" \<newline>\<newline>QuestionText,x\<newline>''
       = plainLineSplit ''NewQuestion,WR\<newline>  Title,\"a, b\" \<newline>\<newline>QuestionText,x\<newline>''
   \<and> plainLineSplit ''NewQuestion,WR\<newline>  Title,\"a, b\" \<newline>\<newline>QuestionText,x\<newline>''
       = [''NewQuestion,WR'', ''Title,\"a, b\"'', ''QuestionText,x'']"
proof -
  have h: "noLineFeedInQuotes False ''NewQuestion,WR\<newline>  Title,\"a, b\" \<newline>\<newline>QuestionText,x\<newline>''"
    by code_simp
  have p: "plainLineSplit ''NewQuestion,WR\<newline>  Title,\"a, b\" \<newline>\<newline>QuestionText,x\<newline>''
       = [''NewQuestion,WR'', ''Title,\"a, b\"'', ''QuestionText,x'']"
    by code_simp
  from splitter_refines_plain_line_split [OF h] h p show ?thesis
    by blast
qed
















end
